theory Spec2Isabelle
  imports Main "HOL-Library.Word" "HOL-Library.Multiset"
begin

section \<open>Memory planning for tensor graphs: a shallow embedding\<close>

text \<open>
  The development follows \<^verbatim>\<open>torch/csrc/jit/passes/memory_planning.cpp\<close> and the
  declarations of \<^verbatim>\<open>memory_planning.h\<close>. A C++ \<^verbatim>\<open>int64_t\<close> is a 64-bit word
  read in two's complement: \<open>+\<close> and \<open>-\<close> wrap around, the comparisons of the
  source are the signed ones (\<open>word_sless\<close>, \<open>word_sle\<close>); where C++ leaves a
  signed overflow undefined, the model takes the wrap-around of the machine. A failed
  \<^verbatim>\<open>TORCH_INTERNAL_ASSERT\<close> or \<^verbatim>\<open>TORCH_CHECK\<close> throws, and so does \<^verbatim>\<open>value()\<close> on an
  empty \<^verbatim>\<open>c10::optional\<close>; in the model the exception is the left summand of the
  result.
\<close>

subsection \<open>Data model\<close>

type_synonym int64 = "64 word"

datatype error = InternalAssert | CheckFailed | BadOptionalAccess | AttributeError

text \<open>
  \<^verbatim>\<open>LiveRange\<close> is declared outside the files at hand; the planner reads its two
  fields \<^verbatim>\<open>begin\<close> and \<^verbatim>\<open>end\<close> and hands them to \<^verbatim>\<open>int64_t\<close> parameters, so they
  are kept as 64-bit words (the conversion from an unsigned 64-bit field keeps the
  bits). The fields carry a prime because \<^verbatim>\<open>begin\<close> and \<^verbatim>\<open>end\<close> are reserved words.
\<close>

record LiveRange =
  begin' :: int64
  end' :: int64

text \<open>The field \<^verbatim>\<open>size\<close> of the source is \<open>size'\<close> here.\<close>

record MemRegion =
  offset :: int64
  size' :: int64

record MemAllocation =
  lvr :: LiveRange
  reg :: MemRegion

subsection \<open>Geometry primitives\<close>

definition int64_max :: int64 where
  "int64_max = 0x7FFFFFFFFFFFFFFF"

definition int64_min :: int64 where
  "int64_min = 0x8000000000000000"

definition smax :: "int64 \<Rightarrow> int64 \<Rightarrow> int64" where
  "smax x y = (if x <s y then y else x)"

definition smin :: "int64 \<Rightarrow> int64 \<Rightarrow> int64" where
  "smin x y = (if y <s x then y else x)"

definition valid_add :: "int64 \<Rightarrow> int64 \<Rightarrow> bool" where
  "valid_add a b =
     (if (0 <s b \<and> int64_max - b <s a) \<or> (b <s 0 \<and> a <s int64_min - b)
      then False else True)"

definition valid_sub :: "int64 \<Rightarrow> int64 \<Rightarrow> bool" where
  "valid_sub a b =
     (if (b <s 0 \<and> int64_max + b <s a) \<or> (0 <s b \<and> a <s int64_min + b)
      then False else True)"

definition intersectArea :: "int64 \<Rightarrow> int64 \<Rightarrow> int64 \<Rightarrow> int64 \<Rightarrow> error + int" where
  "intersectArea a b c d =
     (if \<not> a \<le>s b then Inl InternalAssert
      else if \<not> c \<le>s d then Inl InternalAssert
      else
        let outer = smax b d - smin a c;
            l1 = b - a;
            l2 = d - c
        in if \<not> valid_add l1 l2 then Inr (- 1)
           else if \<not> valid_sub outer (l1 + l2) then Inr (- 1)
           else if 0 <s outer - (l1 + l2) then Inr 1
           else Inr 0)"

definition intersectLiveRange :: "LiveRange \<Rightarrow> LiveRange \<Rightarrow> error + bool" where
  "intersectLiveRange lvr1 lvr2 =
     (case intersectArea (begin' lvr1) (end' lvr1) (begin' lvr2) (end' lvr2) of
        Inl e \<Rightarrow> Inl e
      | Inr r \<Rightarrow> Inr (r \<le> 0))"

definition intersectMemRegion :: "MemRegion \<Rightarrow> MemRegion \<Rightarrow> error + bool" where
  "intersectMemRegion reg1 reg2 =
     (case intersectArea (offset reg1) (offset reg1 + size' reg1)
                         (offset reg2) (offset reg2 + size' reg2) of
        Inl e \<Rightarrow> Inl e
      | Inr r \<Rightarrow> Inr (r < 0))"

subsection \<open>Validator\<close>

text \<open>\<^verbatim>\<open>&&\<close> evaluates its right operand only when the left one is true.\<close>

definition intersectAllocs :: "MemAllocation \<Rightarrow> MemAllocation \<Rightarrow> error + bool" where
  "intersectAllocs m1 m2 =
     (case intersectLiveRange (lvr m1) (lvr m2) of
        Inl e \<Rightarrow> Inl e
      | Inr False \<Rightarrow> Inr False
      | Inr True \<Rightarrow> intersectMemRegion (reg m1) (reg m2))"

text \<open>
  The inner loop of \<^verbatim>\<open>validateAllocations\<close> for a fixed \<^verbatim>\<open>alloc1\<close>: \<open>Inr None\<close> when
  the loop runs to its end, \<open>Inr (Some p)\<close> when it leaves the function with the
  pair \<open>p\<close> written to \<^verbatim>\<open>std::cerr\<close>.
\<close>

fun validate_inner ::
  "MemAllocation \<Rightarrow> MemAllocation list \<Rightarrow> error + (MemAllocation \<times> MemAllocation) option"
where
  "validate_inner alloc1 [] = Inr None"
| "validate_inner alloc1 (alloc2 # rest) =
     (if alloc1 = alloc2 then validate_inner alloc1 rest
      else case intersectAllocs alloc1 alloc2 of
             Inl e \<Rightarrow> Inl e
           | Inr True \<Rightarrow> Inr (Some (alloc1, alloc2))
           | Inr False \<Rightarrow> validate_inner alloc1 rest)"

fun validate_outer ::
  "MemAllocation list \<Rightarrow> MemAllocation list \<Rightarrow> error + (MemAllocation \<times> MemAllocation) option"
where
  "validate_outer [] allocations = Inr None"
| "validate_outer (alloc1 # rest) allocations =
     (case validate_inner alloc1 allocations of
        Inl e \<Rightarrow> Inl e
      | Inr (Some p) \<Rightarrow> Inr (Some p)
      | Inr None \<Rightarrow> validate_outer rest allocations)"

text \<open>
  The result is the returned flag together with what was written to \<^verbatim>\<open>std::cerr\<close>:
  the offending pair, if any.
\<close>

definition validateAllocations ::
  "MemAllocation list \<Rightarrow> error + bool \<times> (MemAllocation \<times> MemAllocation) list"
where
  "validateAllocations allocations =
     (case validate_outer allocations allocations of
        Inl e \<Rightarrow> Inl e
      | Inr (Some p) \<Rightarrow> Inr (False, [p])
      | Inr None \<Rightarrow> Inr (True, []))"

text \<open>
  An allocation on which neither \<^verbatim>\<open>TORCH_INTERNAL_ASSERT\<close> of \<^verbatim>\<open>intersectArea\<close> can
  fail: the live range and the region, as handed over by \<^verbatim>\<open>intersectLiveRange\<close> and
  \<^verbatim>\<open>intersectMemRegion\<close>, have their first endpoint below the second.
\<close>

definition well_formed :: "MemAllocation \<Rightarrow> bool" where
  "well_formed m \<longleftrightarrow>
     begin' (lvr m) \<le>s end' (lvr m) \<and> offset (reg m) \<le>s offset (reg m) + size' (reg m)"

subsection \<open>The NAIVE strategy\<close>

text \<open>
  \<^verbatim>\<open>naive\<close> copies its argument, an \<^verbatim>\<open>unordered_map\<close>, into a \<^verbatim>\<open>std::map\<close> ordered by
  \<^verbatim>\<open>live_range_start_cmp\<close>. The unordered map is the list of its entries in iteration
  order (their keys differ). The ordered map is the list of its entries in key order;
  \<^verbatim>\<open>insert\<close> leaves the map as it is when it holds a key that the comparator puts
  neither before nor after the new one. The range constructor inserts the entries
  one after the other.
\<close>

fun map_insert :: "('k \<Rightarrow> 'k \<Rightarrow> bool) \<Rightarrow> 'k \<times> 'v \<Rightarrow> ('k \<times> 'v) list \<Rightarrow> ('k \<times> 'v) list" where
  "map_insert lt kv [] = [kv]"
| "map_insert lt kv (x # xs) =
     (if lt (fst kv) (fst x) then kv # x # xs
      else if lt (fst x) (fst kv) then x # map_insert lt kv xs
      else x # xs)"

definition map_of_range :: "('k \<Rightarrow> 'k \<Rightarrow> bool) \<Rightarrow> ('k \<times> 'v) list \<Rightarrow> ('k \<times> 'v) list" where
  "map_of_range lt items = foldl (\<lambda>m kv. map_insert lt kv m) [] items"

text \<open>
  The comparator \<^verbatim>\<open>live_range_start_cmp\<close> and \<^verbatim>\<open>MemoryPlanner::computeAlignedTensorSize\<close>
  are declared outside the files at hand; \<^verbatim>\<open>naive\<close> takes them as the parameters
  \<open>lt\<close> and \<open>align\<close>. The loop over the ordered map carries the running offset.
\<close>

fun naive_loop ::
  "(int64 \<Rightarrow> int64) \<Rightarrow> int64 \<Rightarrow> (LiveRange \<times> int64) list \<Rightarrow> MemAllocation list"
where
  "naive_loop align off [] = []"
| "naive_loop align off (item # rest) =
     (let aligned_size = align (snd item)
      in \<lparr>lvr = fst item, reg = \<lparr>offset = off, size' = aligned_size\<rparr>\<rparr>
           # naive_loop align (off + aligned_size) rest)"

definition naive ::
  "(LiveRange \<Rightarrow> LiveRange \<Rightarrow> bool) \<Rightarrow> (int64 \<Rightarrow> int64) \<Rightarrow>
   (LiveRange \<times> int64) list \<Rightarrow> MemAllocation list"
where
  "naive lt align managed_live_ranges =
     naive_loop align 0 (map_of_range lt managed_live_ranges)"

definition getTotalAllocationSize :: "MemAllocation list \<Rightarrow> int64" where
  "getTotalAllocationSize allocations =
     foldl (\<lambda>total_size alloc. smax total_size (offset (reg alloc) + size' (reg alloc)))
       0 allocations"

text \<open>
  Modelled from the spec: the comparator \<^verbatim>\<open>live_range_start_cmp\<close>, whose declaration is
  not among the files at hand. The spec sorts ranges by \<^verbatim>\<open>begin\<close> and breaks ties by
  \<^verbatim>\<open>end\<close>, both ascending. It instantiates the parameter \<open>lt\<close> where a concrete
  comparator is needed.
\<close>

definition live_range_start_cmp :: "LiveRange \<Rightarrow> LiveRange \<Rightarrow> bool" where
  "live_range_start_cmp range1 range2 \<longleftrightarrow>
     begin' range1 < begin' range2 \<or>
     (begin' range1 = begin' range2 \<and> end' range1 < end' range2)"

text \<open>
  Modelled from the spec: \<^verbatim>\<open>MemoryPlanner::computeAlignedTensorSize\<close>, defined outside
  the files at hand. The spec rounds a size up to the platform alignment, typically
  64 bytes. It instantiates the parameter \<open>align\<close> where a concrete function is
  needed.
\<close>

definition computeAlignedTensorSize :: "int64 \<Rightarrow> int64" where
  "computeAlignedTensorSize nbytes = and (nbytes + 63) (not 63)"

subsection \<open>The graph, as far as the planner reads and rewrites it\<close>

text \<open>
  The graph IR is declared outside the files at hand. A \<^verbatim>\<open>Value*\<close> is a record
  with a number that identifies it, the node that produces it (\<^verbatim>\<open>node()\<close>) and its
  type when that is a tensor type (\<^verbatim>\<open>type()\<close>); a \<^verbatim>\<open>Node*\<close> is the number
  \<open>node_id\<close> of a node of the graph. \<open>nodes\<close> is \<^verbatim>\<open>graph->nodes()\<close> in schedule
  order, \<open>graph_outputs\<close> is \<^verbatim>\<open>graph->outputs()\<close>, and \<open>next_unique\<close> numbers the
  nodes and values that \<^verbatim>\<open>graph->create\<close> makes.
\<close>

record TensorType =
  scalarType :: "int option"
  sizes :: "int64 list option"
  strides :: "int64 list option"

record Value =
  unique :: nat
  producer :: nat
  ttype :: "TensorType option"

datatype NodeKind =
  AllocateStorage | AllocateTensor | PreAllocateTensor | Constant | Operator string

record Node =
  node_id :: nat
  kind :: NodeKind
  inputs :: "Value list"
  outputs :: "Value list"
  int_attrs :: "(string \<times> int64) list"
  ints_attrs :: "(string \<times> int64 list) list"

record Graph =
  nodes :: "Node list"
  graph_outputs :: "Value list"
  next_unique :: nat

text \<open>\<^verbatim>\<open>node->outputs()\<close> for a node pointer; the pointers of a trace name nodes of the graph.\<close>

definition node_outputs :: "Graph \<Rightarrow> nat \<Rightarrow> Value list" where
  "node_outputs graph p =
     (case find (\<lambda>n. node_id n = p) (nodes graph) of None \<Rightarrow> [] | Some n \<Rightarrow> outputs n)"

subsection \<open>Live ranges from a trace of memory events\<close>

text \<open>
  \<^verbatim>\<open>FrameNodeId\<close> is declared outside the files at hand; the planner reads the fields
  \<^verbatim>\<open>pc\<close>, \<^verbatim>\<open>node_schema\<close>, \<^verbatim>\<open>node_header\<close> and \<^verbatim>\<open>node\<close>. In \<^verbatim>\<open>MemEvent\<close> the fields
  \<^verbatim>\<open>size\<close> and \<^verbatim>\<open>type\<close> are \<open>ev_size\<close> and \<open>ev_type\<close>; \<^verbatim>\<open>time\<close> is an unsigned 64-bit
  value and is compared as such.
\<close>

record FrameNodeId =
  pc :: nat
  node_schema :: string
  node_header :: string
  node :: nat

datatype EventType = Allocate | Free

record MemEvent =
  time :: "64 word"
  allocation_trace :: string
  ptr_addr :: string
  ev_size :: int64
  ev_type :: EventType
  frame_node_id :: "FrameNodeId option"

text \<open>
  An \<^verbatim>\<open>unordered_map\<close> is the list of its entries, with keys that differ. \<^verbatim>\<open>insert\<close>
  does nothing when the key is present; \<^verbatim>\<open>erase\<close> removes the entry of a key.
\<close>

definition umap_insert :: "'k \<times> 'v \<Rightarrow> ('k \<times> 'v) list \<Rightarrow> ('k \<times> 'v) list" where
  "umap_insert kv m = (case map_of m (fst kv) of None \<Rightarrow> m @ [kv] | Some _ \<Rightarrow> m)"

definition umap_erase :: "'k \<Rightarrow> ('k \<times> 'v) list \<Rightarrow> ('k \<times> 'v) list" where
  "umap_erase k m = filter (\<lambda>kv. fst kv \<noteq> k) m"

text \<open>
  The three containers that the loop over the events of
  \<^verbatim>\<open>getManagedLiveRangesFromMemEvents\<close> updates; \<open>allocs\<close> holds the allocations that
  are open.
\<close>

record Replay =
  managed_live_ranges :: "(LiveRange \<times> int64) list"
  live_range_node_header :: "(LiveRange \<times> FrameNodeId) list"
  allocs :: "(string \<times> MemEvent) list"

definition replay_start :: Replay where
  "replay_start = \<lparr>managed_live_ranges = [], live_range_node_header = [], allocs = []\<rparr>"

text \<open>The body of the loop, for one event.\<close>

definition replay_event :: "MemEvent \<Rightarrow> Replay \<Rightarrow> error + Replay" where
  "replay_event mem_event st =
     (case ev_type mem_event of
        Allocate \<Rightarrow>
          (case frame_node_id mem_event of
             Some _ \<Rightarrow>
               Inr (st\<lparr>allocs := umap_insert (ptr_addr mem_event, mem_event) (allocs st)\<rparr>)
           | None \<Rightarrow> if time mem_event = 0 then Inr st else Inl InternalAssert)
      | Free \<Rightarrow>
          (case map_of (allocs st) (ptr_addr mem_event) of
             None \<Rightarrow> Inl InternalAssert
           | Some alloc \<Rightarrow>
               if ev_type alloc \<noteq> Allocate then Inl InternalAssert
               else if ev_size alloc \<noteq> ev_size mem_event then Inl InternalAssert
               else if \<not> time alloc < time mem_event then Inl InternalAssert
               else
                 (case frame_node_id alloc of
                    None \<Rightarrow> Inl BadOptionalAccess
                  | Some fid \<Rightarrow>
                      let lvr = \<lparr>begin' = time alloc, end' = time mem_event\<rparr>
                      in Inr \<lparr>managed_live_ranges =
                                umap_insert (lvr, ev_size alloc) (managed_live_ranges st),
                              live_range_node_header = live_range_node_header st @ [(lvr, fid)],
                              allocs = umap_erase (ptr_addr mem_event) (allocs st)\<rparr>)))"

fun replay_events :: "MemEvent list \<Rightarrow> Replay \<Rightarrow> error + Replay" where
  "replay_events [] st = Inr st"
| "replay_events (mem_event # rest) st =
     (case replay_event mem_event st of Inl e \<Rightarrow> Inl e | Inr st' \<Rightarrow> replay_events rest st')"

text \<open>The loop over the allocations that are still open after the sweep.\<close>

fun check_leaked :: "Graph \<Rightarrow> (string \<times> MemEvent) list \<Rightarrow> error + unit" where
  "check_leaked graph [] = Inr ()"
| "check_leaked graph (alloc # rest) =
     (if \<not> (ev_type (snd alloc) = Allocate \<and> frame_node_id (snd alloc) \<noteq> None)
      then Inl InternalAssert
      else case frame_node_id (snd alloc) of
             None \<Rightarrow> Inl BadOptionalAccess
           | Some fid \<Rightarrow>
               if \<not> list_all (\<lambda>out. out \<in> set (graph_outputs graph))
                        (node_outputs graph (node fid))
               then Inl InternalAssert
               else check_leaked graph rest)"

definition getManagedLiveRangesFromMemEvents ::
  "MemEvent list \<Rightarrow> Graph \<Rightarrow>
   error + (LiveRange \<times> int64) list \<times> (LiveRange \<times> FrameNodeId) list"
where
  "getManagedLiveRangesFromMemEvents mem_events graph =
     (case replay_events mem_events replay_start of
        Inl e \<Rightarrow> Inl e
      | Inr st \<Rightarrow>
          (case check_leaked graph (allocs st) of
             Inl e \<Rightarrow> Inl e
           | Inr _ \<Rightarrow> Inr (managed_live_ranges st, live_range_node_header st)))"

text \<open>
  What holds of the open allocations during the sweep: each is an \<open>Allocate\<close> event
  of the set \<open>S\<close> that carries a frame node id and is filed under its own pointer.
\<close>

definition open_entries :: "MemEvent set \<Rightarrow> (string \<times> MemEvent) list \<Rightarrow> bool" where
  "open_entries S a \<longleftrightarrow>
     (\<forall>kv\<in>set a. ev_type (snd kv) = Allocate \<and> frame_node_id (snd kv) \<noteq> None \<and>
        ptr_addr (snd kv) = fst kv \<and> snd kv \<in> S)"

subsection \<open>Strategies and the parts of the system the planner calls\<close>

text \<open>
  \<^verbatim>\<open>Strategy\<close> is an \<^verbatim>\<open>enum class\<close> without a declared underlying type, so it is
  stored in an \<^verbatim>\<open>int\<close>, and a \<^verbatim>\<open>switch\<close> over it can meet a value that is none of
  the six enumerators. The model keeps the underlying number.
\<close>

type_synonym Strategy = int

definition NAIVE :: Strategy where "NAIVE = 0"
definition LINEAR_SCAN :: Strategy where "LINEAR_SCAN = 1"
definition GREEDY_BY_SIZE :: Strategy where "GREEDY_BY_SIZE = 2"
definition GREEDY_BY_SIZE_WITH_FIRST_GAP :: Strategy where "GREEDY_BY_SIZE_WITH_FIRST_GAP = 3"
definition GREEDY_BY_LONGEST_AND_SIZE :: Strategy where "GREEDY_BY_LONGEST_AND_SIZE = 4"
definition GREEDY_BY_BREADTH :: Strategy where "GREEDY_BY_BREADTH = 5"

text \<open>
  The packing heuristics other than \<^verbatim>\<open>naive\<close>, the comparator
  \<^verbatim>\<open>live_range_start_cmp\<close>, \<^verbatim>\<open>MemoryPlanner::computeAlignedTensorSize\<close>,
  \<^verbatim>\<open>tensorexpr::pickDeviceType\<close> and \<^verbatim>\<open>at::detail::defaultStrides\<close> are defined outside
  the files at hand: the planners take them in a record. \<open>getManagedStuff\<close> stands for
  the liveness extraction that opens \<^verbatim>\<open>planMemory\<close>; it reads the graph (alias analysis,
  operator schemas, tensor types) and leaves it as it is, and its three results are
  taken as given: the nodes with an out variant, the sizes of the managed values and
  their live ranges, the two maps in iteration order.
\<close>

record Externals =
  live_range_cmp :: "LiveRange \<Rightarrow> LiveRange \<Rightarrow> bool"
  alignedTensorSize :: "int64 \<Rightarrow> int64"
  linearScanHeuristic :: "(LiveRange \<times> int64) list \<Rightarrow> MemAllocation list"
  greedyBySize :: "(LiveRange \<times> int64) list \<Rightarrow> MemAllocation list"
  greedyBySizeWithFirstGap :: "(LiveRange \<times> int64) list \<Rightarrow> MemAllocation list"
  greedyBySizeAndLongestWithFirstGap :: "(LiveRange \<times> int64) list \<Rightarrow> MemAllocation list"
  greedyByOperatorBreadth ::
    "(Value \<times> int64) list \<Rightarrow> (Value \<times> LiveRange) list \<Rightarrow> nat list \<Rightarrow> MemAllocation list"
  pickDeviceType :: "Graph \<Rightarrow> int64 option"
  defaultStrides :: "int64 list \<Rightarrow> int64 list"
  getManagedStuff :: "Graph \<Rightarrow> nat list \<times> (Value \<times> int64) list \<times> (Value \<times> LiveRange) list"

subsection \<open>More containers\<close>

text \<open>
  \<^verbatim>\<open>m[k] = v\<close> on an \<^verbatim>\<open>unordered_map\<close> replaces the value of a key that is present.
  \<^verbatim>\<open>count\<close>, \<^verbatim>\<open>at\<close> and \<^verbatim>\<open>find\<close> on a \<^verbatim>\<open>std::map\<close> look for an entry whose key the
  comparator puts neither before nor after the given one. \<^verbatim>\<open>std::sort\<close> is an
  insertion sort here, which keeps the order of elements that the comparator does not
  separate (the source leaves that order open).
\<close>

definition umap_assign :: "'k \<Rightarrow> 'v \<Rightarrow> ('k \<times> 'v) list \<Rightarrow> ('k \<times> 'v) list" where
  "umap_assign k v m =
     (case map_of m k of
        None \<Rightarrow> m @ [(k, v)]
      | Some _ \<Rightarrow> map (\<lambda>kv. if fst kv = k then (k, v) else kv) m)"

definition map_find :: "('k \<Rightarrow> 'k \<Rightarrow> bool) \<Rightarrow> 'k \<Rightarrow> ('k \<times> 'v) list \<Rightarrow> ('k \<times> 'v) option" where
  "map_find lt k m = find (\<lambda>kv. \<not> lt (fst kv) k \<and> \<not> lt k (fst kv)) m"

fun insert_sorted :: "('a \<Rightarrow> 'a \<Rightarrow> bool) \<Rightarrow> 'a \<Rightarrow> 'a list \<Rightarrow> 'a list" where
  "insert_sorted lt x [] = [x]"
| "insert_sorted lt x (y # ys) = (if lt x y then x # y # ys else y # insert_sorted lt x ys)"

definition std_sort :: "('a \<Rightarrow> 'a \<Rightarrow> bool) \<Rightarrow> 'a list \<Rightarrow> 'a list" where
  "std_sort lt xs = foldl (\<lambda>sorted x. insert_sorted lt x sorted) [] xs"

subsection \<open>Creating and inserting nodes\<close>

text \<open>
  Attributes are kept by name; \<^verbatim>\<open>i_\<close> and \<^verbatim>\<open>is_\<close> (\<open>set_i\<close>, \<open>set_is\<close>) replace the
  value of a name that is set, \<^verbatim>\<open>i\<close> (\<open>attr_i\<close>) throws when the name is not set, and
  \<^verbatim>\<open>output()\<close> (\<open>node_output\<close>) asserts that the node has one output.
  \<^verbatim>\<open>graph->create(kind, 1)\<close> makes a node with one fresh output. \<open>insert_before\<close> is
  \<^verbatim>\<open>insertBefore\<close> on the list of nodes; a target that is not in the list is the
  return node, which closes the list. The state of the graph after an exception is
  not tracked.
\<close>

fun attr_update :: "string \<Rightarrow> 'v \<Rightarrow> (string \<times> 'v) list \<Rightarrow> (string \<times> 'v) list" where
  "attr_update name v [] = [(name, v)]"
| "attr_update name v (kv # rest) =
     (if fst kv = name then (name, v) # rest else kv # attr_update name v rest)"

definition set_i :: "string \<Rightarrow> int64 \<Rightarrow> Node \<Rightarrow> Node" where
  "set_i name v n = n\<lparr>int_attrs := attr_update name v (int_attrs n)\<rparr>"

definition set_is :: "string \<Rightarrow> int64 list \<Rightarrow> Node \<Rightarrow> Node" where
  "set_is name v n = n\<lparr>ints_attrs := attr_update name v (ints_attrs n)\<rparr>"

definition attr_i :: "Node \<Rightarrow> string \<Rightarrow> error + int64" where
  "attr_i n name = (case map_of (int_attrs n) name of None \<Rightarrow> Inl AttributeError | Some v \<Rightarrow> Inr v)"

definition addInput :: "Value \<Rightarrow> Node \<Rightarrow> Node" where
  "addInput v n = n\<lparr>inputs := inputs n @ [v]\<rparr>"

definition node_output :: "Node \<Rightarrow> error + Value" where
  "node_output n = (case outputs n of [v] \<Rightarrow> Inr v | _ \<Rightarrow> Inl InternalAssert)"

definition create :: "Graph \<Rightarrow> NodeKind \<Rightarrow> Node \<times> Graph" where
  "create graph k =
     (\<lparr>node_id = next_unique graph, kind = k, inputs = [],
       outputs = [\<lparr>unique = Suc (next_unique graph), producer = next_unique graph, ttype = None\<rparr>],
       int_attrs = [], ints_attrs = []\<rparr>,
      graph\<lparr>next_unique := next_unique graph + 2\<rparr>)"

fun insert_before :: "Node \<Rightarrow> nat \<Rightarrow> Node list \<Rightarrow> Node list" where
  "insert_before new p [] = [new]"
| "insert_before new p (n # ns) =
     (if node_id n = p then new # n # ns else n # insert_before new p ns)"

definition kCPU :: int64 where "kCPU = 0"

definition insertAllocStorageNode :: "Externals \<Rightarrow> Graph \<Rightarrow> int64 \<Rightarrow> Node \<times> Graph" where
  "insertAllocStorageNode ext graph total_size =
     (let (storage, graph1) = create graph AllocateStorage;
          storage1 = set_i ''total_size'' total_size storage;
          storage2 = (case pickDeviceType ext graph1 of
                        Some device_type \<Rightarrow> set_i ''device'' device_type storage1
                      | None \<Rightarrow> set_i ''device'' kCPU storage1)
      in (storage2, graph1\<lparr>nodes := storage2 # nodes graph1\<rparr>))"

definition allocations_map :: "MemAllocation list \<Rightarrow> (LiveRange \<times> MemRegion) list" where
  "allocations_map allocations =
     foldl (\<lambda>m item. umap_assign (lvr item) (reg item) m) [] allocations"

definition region_at :: "(LiveRange \<times> MemRegion) list \<Rightarrow> LiveRange \<Rightarrow> MemRegion" where
  "region_at m r = (case map_of m r of None \<Rightarrow> \<lparr>offset = 0, size' = 0\<rparr> | Some region \<Rightarrow> region)"

subsection \<open>Planning from a trace\<close>

text \<open>
  \<^verbatim>\<open>operator==\<close> on \<^verbatim>\<open>FrameNodeId\<close> compares \<^verbatim>\<open>pc\<close>, \<^verbatim>\<open>node_schema\<close> and
  \<^verbatim>\<open>node_header\<close>; \<^verbatim>\<open>frame_node_id_cmp\<close> compares \<^verbatim>\<open>pc\<close>.
  \<open>node_live_ranges_add\<close> is \<^verbatim>\<open>node_live_ranges[frame_node_id].emplace_back(lvr)\<close>.
  The \<^verbatim>\<open>switch\<close> of \<^verbatim>\<open>planMemoryWithTracing\<close> is \<open>trace_strategy_switch\<close>: \<open>None\<close>
  is the \<^verbatim>\<open>default: return;\<close>.
\<close>

definition frame_node_id_eq :: "FrameNodeId \<Rightarrow> FrameNodeId \<Rightarrow> bool" where
  "frame_node_id_eq lhs rhs \<longleftrightarrow>
     pc lhs = pc rhs \<and> node_schema lhs = node_schema rhs \<and> node_header lhs = node_header rhs"

definition frame_node_id_cmp ::
  "FrameNodeId \<times> LiveRange list \<Rightarrow> FrameNodeId \<times> LiveRange list \<Rightarrow> bool" where
  "frame_node_id_cmp f1 f2 \<longleftrightarrow> pc (fst f1) < pc (fst f2)"

fun node_live_ranges_add ::
  "FrameNodeId \<Rightarrow> LiveRange \<Rightarrow> (FrameNodeId \<times> LiveRange list) list \<Rightarrow>
   (FrameNodeId \<times> LiveRange list) list"
where
  "node_live_ranges_add fid r [] = [(fid, [r])]"
| "node_live_ranges_add fid r (entry # rest) =
     (if frame_node_id_eq (fst entry) fid then (fst entry, snd entry @ [r]) # rest
      else entry # node_live_ranges_add fid r rest)"

definition collectLiveRangesPerNode ::
  "(LiveRange \<Rightarrow> LiveRange \<Rightarrow> bool) \<Rightarrow> (LiveRange \<times> FrameNodeId) list \<Rightarrow>
   (FrameNodeId \<times> LiveRange list) list"
where
  "collectLiveRangesPerNode lt node_header_list =
     (let node_live_ranges =
            foldl (\<lambda>m item. node_live_ranges_add (snd item) (fst item) m) [] node_header_list;
          collected_node_live_ranges =
            map (\<lambda>item. (fst item, std_sort lt (snd item))) node_live_ranges
      in std_sort frame_node_id_cmp collected_node_live_ranges)"

fun insertPreAllocTensorNodes_lvrs ::
  "Node \<Rightarrow> (LiveRange \<times> MemRegion) list \<Rightarrow> nat \<Rightarrow> LiveRange list \<Rightarrow>
   Node list \<times> Graph \<Rightarrow> error + Node list \<times> Graph"
where
  "insertPreAllocTensorNodes_lvrs storage amap p [] acc = Inr acc"
| "insertPreAllocTensorNodes_lvrs storage amap p (r # rest) (inserted_alloc_nodes, graph) =
     (let region = region_at amap r;
          (alloc, graph1) = create graph PreAllocateTensor
      in (case node_output storage of
           Inl e \<Rightarrow> Inl e
         | Inr storage_output \<Rightarrow>
            (case attr_i storage ''device'' of
               Inl e \<Rightarrow> Inl e
             | Inr device \<Rightarrow>
                 let alloc1 = set_i ''device'' device
                                (set_i ''offset'' (offset region)
                                  (set_i ''size'' (size' region) (addInput storage_output alloc)))
                 in insertPreAllocTensorNodes_lvrs storage amap p rest
                      (inserted_alloc_nodes @ [alloc1],
                       graph1\<lparr>nodes := insert_before alloc1 p (nodes graph1)\<rparr>))))"

fun insertPreAllocTensorNodes_items ::
  "(LiveRange \<Rightarrow> LiveRange \<Rightarrow> bool) \<Rightarrow> Node \<Rightarrow> (LiveRange \<times> MemRegion) list \<Rightarrow>
   (FrameNodeId \<times> LiveRange list) list \<Rightarrow> Node list \<times> Graph \<Rightarrow> error + Node list \<times> Graph"
where
  "insertPreAllocTensorNodes_items lt storage amap [] acc = Inr acc"
| "insertPreAllocTensorNodes_items lt storage amap (item # rest) acc =
     (case insertPreAllocTensorNodes_lvrs storage amap (node (fst item))
             (std_sort lt (snd item)) acc of
        Inl e \<Rightarrow> Inl e
      | Inr acc' \<Rightarrow> insertPreAllocTensorNodes_items lt storage amap rest acc')"

definition insertPreAllocTensorNodes ::
  "(LiveRange \<Rightarrow> LiveRange \<Rightarrow> bool) \<Rightarrow> Graph \<Rightarrow> Node \<Rightarrow> MemAllocation list \<Rightarrow>
   (FrameNodeId \<times> LiveRange list) list \<Rightarrow> error + Node list \<times> Graph"
where
  "insertPreAllocTensorNodes lt graph storage allocations collected_node_live_ranges =
     insertPreAllocTensorNodes_items lt storage (allocations_map allocations)
       (std_sort frame_node_id_cmp collected_node_live_ranges) ([], graph)"

fun collect_inputs :: "Node list \<Rightarrow> Node \<Rightarrow> error + Node" where
  "collect_inputs [] collect_node = Inr collect_node"
| "collect_inputs (n # rest) collect_node =
     (case node_output n of
        Inl e \<Rightarrow> Inl e
      | Inr v \<Rightarrow> collect_inputs rest (addInput v collect_node))"

definition insertCollectAllocatedTensorsNode :: "Graph \<Rightarrow> Node list \<Rightarrow> error + Graph" where
  "insertCollectAllocatedTensorsNode graph alloc_nodes =
     (let (collect_node, graph1) = create graph Constant
      in (case collect_inputs alloc_nodes collect_node of
            Inl e \<Rightarrow> Inl e
          | Inr collect_node1 \<Rightarrow> Inr (graph1\<lparr>nodes := nodes graph1 @ [collect_node1]\<rparr>)))"

definition trace_strategy_switch ::
  "Externals \<Rightarrow> Strategy \<Rightarrow> (LiveRange \<times> int64) list \<Rightarrow> MemAllocation list option"
where
  "trace_strategy_switch ext strat managed =
     (if strat = NAIVE then Some (naive (live_range_cmp ext) (alignedTensorSize ext) managed)
      else if strat = LINEAR_SCAN then Some (linearScanHeuristic ext managed)
      else if strat = GREEDY_BY_SIZE then Some (greedyBySize ext managed)
      else None)"

definition planMemoryWithTracing ::
  "Externals \<Rightarrow> Graph \<Rightarrow> Strategy \<Rightarrow> MemEvent list \<Rightarrow> int64 option \<Rightarrow> error + Graph"
where
  "planMemoryWithTracing ext graph strat mem_events device_type =
     (if mem_events = [] then Inl InternalAssert
      else (case getManagedLiveRangesFromMemEvents mem_events graph of
        Inl e \<Rightarrow> Inl e
      | Inr (managed, header) \<Rightarrow>
          (case trace_strategy_switch ext strat managed of
             None \<Rightarrow> Inr graph
           | Some allocations \<Rightarrow>
               let total_size = getTotalAllocationSize allocations;
                   (storage_node, graph1) = insertAllocStorageNode ext graph total_size;
                   collected_node_live_ranges =
                     collectLiveRangesPerNode (live_range_cmp ext) header
               in (case insertPreAllocTensorNodes (live_range_cmp ext) graph1 storage_node
                          allocations collected_node_live_ranges of
                     Inl e \<Rightarrow> Inl e
                   | Inr (inserted_alloc_nodes, graph2) \<Rightarrow>
                       insertCollectAllocatedTensorsNode graph2 inserted_alloc_nodes))))"

subsection \<open>Planning from the graph\<close>

text \<open>
  \<open>managed_live_ranges_step\<close> is the body of the first loop of \<^verbatim>\<open>planMemory\<close>,
  \<^verbatim>\<open>managed_live_ranges[managed_value_ranges[item.first]] = item.second\<close>, where
  \<^verbatim>\<open>operator[]\<close> enters a value-initialised live range for a value that has none;
  the new entry comes first in the iteration that follows, as in the hash table of
  libstdc++ (the standard leaves its place open).
  \<open>managed_range_values_step\<close> is the body of the loop that fills
  \<^verbatim>\<open>managed_range_values\<close>; the second component collects the \<^verbatim>\<open>TORCH_WARN\<close>s, each as
  the pair of the value at hand and the value found under its range. The \<^verbatim>\<open>switch\<close>
  is \<open>strategy_switch\<close>, with \<open>None\<close> for \<^verbatim>\<open>default: return;\<close>, where the vector
  \<^verbatim>\<open>allocations\<close> is still empty. \<open>planMemory\<close> returns the graph and the warnings of
  the second loop.
\<close>

definition getSizesStrides :: "Externals \<Rightarrow> TensorType \<Rightarrow> int64 list \<times> int64 list" where
  "getSizesStrides ext ttp =
     (let sizes1 = (case sizes ttp of
                      Some (s # ss) \<Rightarrow> if s \<noteq> 0 then s # ss else [0]
                    | _ \<Rightarrow> [0]);
          strides1 = (case strides ttp of
                        Some (s # ss) \<Rightarrow> if s \<noteq> 0 then s # ss else defaultStrides ext sizes1
                      | _ \<Rightarrow> defaultStrides ext sizes1)
      in (sizes1, strides1))"

fun insertAllocTensorNodes_loop ::
  "Externals \<Rightarrow> Node \<Rightarrow> (LiveRange \<times> MemRegion) list \<Rightarrow> int64 \<Rightarrow>
   (LiveRange \<times> Value) list \<Rightarrow> Graph \<Rightarrow> error + Graph"
where
  "insertAllocTensorNodes_loop ext storage amap total_size [] graph = Inr graph"
| "insertAllocTensorNodes_loop ext storage amap total_size (item # rest) graph =
     (let region = region_at amap (fst item);
          allocation = snd item;
          (alloc, graph1) = create graph AllocateTensor
      in (case node_output alloc of
           Inl e \<Rightarrow> Inl e
         | Inr alloc_output \<Rightarrow>
       (case node_output storage of
           Inl e \<Rightarrow> Inl e
         | Inr storage_output \<Rightarrow>
       (case ttype allocation of
           None \<Rightarrow> Inl InternalAssert
         | Some ttp \<Rightarrow>
             let (sizes1, strides1) = getSizesStrides ext ttp
             in (if \<not> offset region + size' region \<le>s total_size then Inl CheckFailed
                else
                  (case attr_i storage ''device'' of
                     Inl e \<Rightarrow> Inl e
                   | Inr device \<Rightarrow>
                  (case scalarType ttp of
                     None \<Rightarrow> Inl BadOptionalAccess
                   | Some dtype \<Rightarrow>
                       let alloc1 =
                             set_i ''dtype'' (word_of_int dtype)
                               (set_i ''device'' device
                                 (set_is ''stride'' strides1
                                   (set_is ''sizes'' sizes1
                                     (set_i ''offset'' (offset region)
                                       (set_i ''size'' (size' region)
                                         (addInput storage_output alloc))))));
                           nodes1 = map (\<lambda>n. if node_id n = producer allocation
                                               then addInput alloc_output n else n)
                                      (nodes graph1)
                       in insertAllocTensorNodes_loop ext storage amap total_size rest
                            (graph1\<lparr>nodes := insert_before alloc1 (producer allocation) nodes1\<rparr>))))))))"

definition insertAllocTensorNodes ::
  "Externals \<Rightarrow> Graph \<Rightarrow> Node \<Rightarrow> MemAllocation list \<Rightarrow> (LiveRange \<times> Value) list \<Rightarrow>
   error + Graph"
where
  "insertAllocTensorNodes ext graph storage allocations managed_range_values =
     (case attr_i storage ''total_size'' of
        Inl e \<Rightarrow> Inl e
      | Inr total_size \<Rightarrow>
          insertAllocTensorNodes_loop ext storage (allocations_map allocations) total_size
            managed_range_values graph)"

definition managed_range_values_step ::
  "(LiveRange \<Rightarrow> LiveRange \<Rightarrow> bool) \<Rightarrow> (LiveRange \<times> Value) list \<times> (Value \<times> Value) list \<Rightarrow>
   Value \<times> LiveRange \<Rightarrow> (LiveRange \<times> Value) list \<times> (Value \<times> Value) list"
where
  "managed_range_values_step lt acc item =
     (let warnings = (case map_find lt (snd item) (fst acc) of
                        Some found \<Rightarrow> snd acc @ [(fst item, snd found)]
                      | None \<Rightarrow> snd acc)
      in (map_insert lt (snd item, fst item) (fst acc), warnings))"

definition managed_range_values_loop ::
  "(LiveRange \<Rightarrow> LiveRange \<Rightarrow> bool) \<Rightarrow> (Value \<times> LiveRange) list \<Rightarrow>
   (LiveRange \<times> Value) list \<times> (Value \<times> Value) list"
where
  "managed_range_values_loop lt managed_value_ranges =
     foldl (managed_range_values_step lt) ([], []) managed_value_ranges"

definition managed_live_ranges_step ::
  "(Value \<times> LiveRange) list \<times> (LiveRange \<times> int64) list \<Rightarrow> Value \<times> int64 \<Rightarrow>
   (Value \<times> LiveRange) list \<times> (LiveRange \<times> int64) list"
where
  "managed_live_ranges_step acc item =
     (case map_of (fst acc) (fst item) of
        Some r \<Rightarrow> (fst acc, umap_assign r (snd item) (snd acc))
      | None \<Rightarrow> ((fst item, \<lparr>begin' = 0, end' = 0\<rparr>) # fst acc,
                 umap_assign \<lparr>begin' = 0, end' = 0\<rparr> (snd item) (snd acc)))"

definition strategy_switch ::
  "Externals \<Rightarrow> Strategy \<Rightarrow> (LiveRange \<times> int64) list \<Rightarrow> (Value \<times> int64) list \<Rightarrow>
   (Value \<times> LiveRange) list \<Rightarrow> nat list \<Rightarrow> MemAllocation list option"
where
  "strategy_switch ext strat managed sizes_of ranges_of out_nodes =
     (if strat = NAIVE then Some (naive (live_range_cmp ext) (alignedTensorSize ext) managed)
      else if strat = LINEAR_SCAN then Some (linearScanHeuristic ext managed)
      else if strat = GREEDY_BY_SIZE then Some (greedyBySize ext managed)
      else if strat = GREEDY_BY_SIZE_WITH_FIRST_GAP then Some (greedyBySizeWithFirstGap ext managed)
      else if strat = GREEDY_BY_LONGEST_AND_SIZE
        then Some (greedyBySizeAndLongestWithFirstGap ext managed)
      else if strat = GREEDY_BY_BREADTH
        then Some (greedyByOperatorBreadth ext sizes_of ranges_of out_nodes)
      else None)"

definition planMemory ::
  "Externals \<Rightarrow> Graph \<Rightarrow> Strategy \<Rightarrow> error + Graph \<times> (Value \<times> Value) list"
where
  "planMemory ext graph strat =
     (let (out_nodes, managed_value_sizes, managed_value_ranges0) = getManagedStuff ext graph;
          (managed_value_ranges, managed) =
             foldl managed_live_ranges_step (managed_value_ranges0, []) managed_value_sizes
      in (case strategy_switch ext strat managed managed_value_sizes managed_value_ranges
                 out_nodes of
           None \<Rightarrow> Inr (graph, [])
         | Some allocations \<Rightarrow>
             (case validateAllocations allocations of
                Inl e \<Rightarrow> Inl e
              | Inr (valid, _) \<Rightarrow>
                  if \<not> valid then Inl InternalAssert
                  else
                    let total_size = getTotalAllocationSize allocations;
                        (managed_range_values, warnings) =
                           managed_range_values_loop (live_range_cmp ext) managed_value_ranges;
                        (storage_node, graph1) = insertAllocStorageNode ext graph total_size
                    in (case insertAllocTensorNodes ext graph1 storage_node allocations
                               managed_range_values of
                          Inl e \<Rightarrow> Inl e
                        | Inr graph2 \<Rightarrow> Inr (graph2, warnings)))))"


subsection \<open>A small graph and a trace\<close>

text \<open>
  Two nodes, the second of which produces the graph output, and a trace that
  allocates at both nodes and frees the first allocation. The heuristics that are not
  among the files at hand are stand-ins in \<open>example_externals\<close>; they are placed
  there only for paths that do not call them.
\<close>

definition example_externals :: Externals where
  "example_externals =
     \<lparr>live_range_cmp = live_range_start_cmp,
      alignedTensorSize = computeAlignedTensorSize,
      linearScanHeuristic = (\<lambda>m. []),
      greedyBySize = (\<lambda>m. []),
      greedyBySizeWithFirstGap = (\<lambda>m. []),
      greedyBySizeAndLongestWithFirstGap = (\<lambda>m. []),
      greedyByOperatorBreadth = (\<lambda>s r n. []),
      pickDeviceType = (\<lambda>g. None),
      defaultStrides = (\<lambda>s. s),
      getManagedStuff = (\<lambda>g. ([], [], []))\<rparr>"

definition example_graph :: Graph where
  "example_graph =
     \<lparr>nodes =
        [\<lparr>node_id = 0, kind = Operator ''aten::relu'', inputs = [],
          outputs = [\<lparr>unique = 1, producer = 0, ttype = None\<rparr>], int_attrs = [], ints_attrs = []\<rparr>,
         \<lparr>node_id = 2, kind = Operator ''aten::relu'',
          inputs = [\<lparr>unique = 1, producer = 0, ttype = None\<rparr>],
          outputs = [\<lparr>unique = 3, producer = 2, ttype = None\<rparr>], int_attrs = [], ints_attrs = []\<rparr>],
      graph_outputs = [\<lparr>unique = 3, producer = 2, ttype = None\<rparr>],
      next_unique = 4\<rparr>"

definition example_trace :: "MemEvent list" where
  "example_trace =
     [\<lparr>time = 1, allocation_trace = [], ptr_addr = ''a'', ev_size = 32, ev_type = Allocate,
       frame_node_id = Some \<lparr>pc = 0, node_schema = [], node_header = [], node = 0\<rparr>\<rparr>,
      \<lparr>time = 2, allocation_trace = [], ptr_addr = ''b'', ev_size = 32, ev_type = Allocate,
       frame_node_id = Some \<lparr>pc = 1, node_schema = [], node_header = [], node = 2\<rparr>\<rparr>,
      \<lparr>time = 3, allocation_trace = [], ptr_addr = ''a'', ev_size = 32, ev_type = Free,
       frame_node_id = None\<rparr>]"

section \<open>Properties of the geometry primitives\<close>

lemma smax_sle: "b \<le>s d \<Longrightarrow> smax b d = d"
  by (auto simp: smax_def word_sle_eq word_sless_alt intro: signed_word_eqI)

lemma smin_sle: "a \<le>s c \<Longrightarrow> smin a c = a"
  by (auto simp: smin_def word_sle_eq word_sless_alt)

lemma intersectArea_touch:
  assumes "a \<le>s b" "b \<le>s d"
  shows "intersectArea a b b d = Inr 0 \<or> intersectArea a b b d = Inr (- 1)"
proof -
  have "smax b d - smin a b = d - a"
    using assms by (simp add: smax_sle smin_sle)
  moreover have "(b - a) + (d - b) = d - a" by simp
  ultimately show ?thesis
    using assms unfolding intersectArea_def Let_def by simp
qed

lemma intersectArea_total:
  "a \<le>s b \<Longrightarrow> c \<le>s d \<Longrightarrow> \<exists>r. intersectArea a b c d = Inr r"
  by (simp add: intersectArea_def Let_def)

lemma intersectAllocs_total:
  "well_formed a \<Longrightarrow> well_formed b \<Longrightarrow> \<exists>r. intersectAllocs a b = Inr r"
  using intersectArea_total [of "begin' (lvr a)" "end' (lvr a)" "begin' (lvr b)" "end' (lvr b)"]
    intersectArea_total [of "offset (reg a)" "offset (reg a) + size' (reg a)"
       "offset (reg b)" "offset (reg b) + size' (reg b)"]
  by (auto simp: well_formed_def intersectAllocs_def intersectLiveRange_def
      intersectMemRegion_def split: sum.splits bool.splits)

lemma sint_sub_in_range:
  fixes x y :: int64
  assumes "- (2 ^ 63) \<le> sint x - sint y" "sint x - sint y < 2 ^ 63"
  shows "sint (x - y) = sint x - sint y"
  using assms by (simp add: sint_word_ariths signed_take_bit_int_eq_self)

lemma sint_add_in_range_signed:
  fixes x y :: int64
  assumes "- (2 ^ 63) \<le> sint x + sint y" "sint x + sint y < 2 ^ 63"
  shows "sint (x + y) = sint x + sint y"
  using assms by (simp add: sint_word_ariths signed_take_bit_int_eq_self)

lemma sint_int64_max: "sint int64_max = 2 ^ 63 - 1"
  by (simp add: int64_max_def)

lemma sint_int64_min: "sint int64_min = - (2 ^ 63)"
  by (simp add: int64_min_def)

text \<open>
  On endpoints between 0 and \<open>2^62\<close> no check of \<^verbatim>\<open>intersectArea\<close> reports an overflow,
  and the result is \<open>1\<close> or \<open>0\<close>: the value \<open>-1\<close> is returned only from the two
  overflow branches.
\<close>

lemma intersectArea_small:
  assumes "0 \<le> sint a" "sint a \<le> sint b" "sint b < 2 ^ 62"
    and "0 \<le> sint c" "sint c \<le> sint d" "sint d < 2 ^ 62"
  shows "intersectArea a b c d =
           Inr (if max (sint b) (sint d) - min (sint a) (sint c) > (sint b - sint a) + (sint d - sint c)
                then 1 else 0)"
proof -
  have l1: "sint (b - a) = sint b - sint a"
    using assms by (intro sint_sub_in_range) auto
  have l2: "sint (d - c) = sint d - sint c"
    using assms by (intro sint_sub_in_range) auto
  have L: "sint ((b - a) + (d - c)) = (sint b - sint a) + (sint d - sint c)"
    unfolding l1 [symmetric] l2 [symmetric]
    using assms l1 l2 by (intro sint_add_in_range_signed) auto
  have smax: "sint (smax b d) = max (sint b) (sint d)"
    by (auto simp: smax_def word_sless_alt)
  have smin: "sint (smin a c) = min (sint a) (sint c)"
    by (auto simp: smin_def word_sless_alt)
  have outer: "sint (smax b d - smin a c) = max (sint b) (sint d) - min (sint a) (sint c)"
    unfolding smax [symmetric] smin [symmetric]
    using assms smax smin by (intro sint_sub_in_range) auto
  have va: "valid_add (b - a) (d - c)"
  proof -
    have "sint (int64_max - (d - c)) = sint int64_max - sint (d - c)"
      using assms l2 by (intro sint_sub_in_range) (auto simp: sint_int64_max)
    then show ?thesis
      using assms l1 l2 by (auto simp: valid_add_def word_sless_alt sint_int64_max)
  qed
  have vs: "valid_sub (smax b d - smin a c) ((b - a) + (d - c))"
  proof -
    have "sint (int64_min + ((b - a) + (d - c))) = sint int64_min + sint ((b - a) + (d - c))"
      using assms L by (intro sint_add_in_range_signed) (auto simp: sint_int64_min)
    then show ?thesis
      using assms L outer by (auto simp: valid_sub_def word_sless_alt sint_int64_min)
  qed
  have diff: "sint ((smax b d - smin a c) - ((b - a) + (d - c)))
     = (max (sint b) (sint d) - min (sint a) (sint c)) - ((sint b - sint a) + (sint d - sint c))"
    unfolding outer [symmetric] L [symmetric]
    using assms outer L by (intro sint_sub_in_range) auto
  show ?thesis
    using assms(2,5) va vs diff
    by (simp add: intersectArea_def Let_def word_sle_eq word_sless_alt)
qed

lemma intersectMemRegion_small:
  assumes "0 \<le> sint (offset reg1)" "0 \<le> sint (size' reg1)"
    and "sint (offset reg1) + sint (size' reg1) < 2 ^ 62"
    and "0 \<le> sint (offset reg2)" "0 \<le> sint (size' reg2)"
    and "sint (offset reg2) + sint (size' reg2) < 2 ^ 62"
  shows "intersectMemRegion reg1 reg2 = Inr False"
proof -
  have e1: "sint (offset reg1 + size' reg1) = sint (offset reg1) + sint (size' reg1)"
    using assms by (intro sint_add_in_range_signed) auto
  have e2: "sint (offset reg2 + size' reg2) = sint (offset reg2) + sint (size' reg2)"
    using assms by (intro sint_add_in_range_signed) auto
  have "\<exists>r. intersectArea (offset reg1) (offset reg1 + size' reg1)
               (offset reg2) (offset reg2 + size' reg2) = Inr r \<and> 0 \<le> r"
    using assms e1 e2 by (subst intersectArea_small) auto
  then show ?thesis by (auto simp: intersectMemRegion_def)
qed

lemmas geometry_defs =
  intersectAllocs_def intersectLiveRange_def intersectMemRegion_def intersectArea_def
  valid_add_def valid_sub_def smax_def smin_def int64_max_def int64_min_def
  word_sle_eq word_sless_alt

text \<open>
  Claim C4, on the code. The intervals \<open>[0,10]\<close> and \<open>[5,15]\<close> overlap in more than
  a point: \<open>outer = 15\<close> is smaller than \<open>l1 + l2 = 20\<close> and no check reports an
  overflow. The last \<^verbatim>\<open>else\<close> of \<^verbatim>\<open>intersectArea\<close> takes every difference
  \<open>outer - (l1 + l2) \<le> 0\<close>, so the result is \<open>0\<close> (touch) and not \<open>-1\<close> (overlap).
  The lengths \<open>l1\<close>, \<open>l2\<close> and \<open>outer\<close> themselves are subtracted without a check:
  for the whole range of \<^verbatim>\<open>int64_t\<close> against \<open>[0,1]\<close> the length \<open>l1\<close> wraps around to
  \<open>-1\<close>, no check fires, and the result is \<open>0\<close> again.
\<close>

theorem intersectArea_overlap_is_touch:
  "intersectArea 0 10 5 15 = Inr 0 \<and>
   intersectArea 0x8000000000000000 0x7FFFFFFFFFFFFFFF 0 1 = Inr 0"
  by (simp add: geometry_defs)

text \<open>
  Claim C5, on the code. The regions \<open>{offset 0, size 10}\<close> and \<open>{offset 5, size 10}\<close>
  share the bytes from 5 to 10, and \<^verbatim>\<open>intersectMemRegion\<close> returns false; so does it
  on two copies of one region at the same offset. The end \<^verbatim>\<open>offset + size\<close> of a
  region is added without a check: for a region of one byte at the largest offset
  it wraps around and the assertion \<^verbatim>\<open>a <= b\<close> of \<^verbatim>\<open>intersectArea\<close> fails.
\<close>

theorem intersectMemRegion_misses_overlap:
  "intersectMemRegion \<lparr>offset = 0, size' = 10\<rparr> \<lparr>offset = 5, size' = 10\<rparr> = Inr False \<and>
   intersectMemRegion \<lparr>offset = 0, size' = 128\<rparr> \<lparr>offset = 0, size' = 128\<rparr> = Inr False \<and>
   intersectMemRegion \<lparr>offset = 0x7FFFFFFFFFFFFFFF, size' = 1\<rparr> \<lparr>offset = 0, size' = 1\<rparr>
     = Inl InternalAssert"
  by (simp add: geometry_defs)

text \<open>
  Claim C1, as the code has it. \<^verbatim>\<open>intersectLiveRange\<close> accepts the results \<open>0\<close> and
  \<open>-1\<close> of \<^verbatim>\<open>intersectArea\<close>, so two live ranges that touch in a single point
  (\<^verbatim>\<open>a.end == b.begin\<close>) do intersect in time. For two allocations whose live
  ranges pass the assertions and touch in this way, \<^verbatim>\<open>intersectLiveRange\<close> is true and
  \<^verbatim>\<open>intersectAllocs\<close> is decided by \<^verbatim>\<open>intersectMemRegion\<close> alone.
\<close>

theorem touching_live_ranges_intersect:
  assumes "begin' (lvr m1) \<le>s end' (lvr m1)"
    and "begin' (lvr m2) \<le>s end' (lvr m2)"
    and "end' (lvr m1) = begin' (lvr m2)"
  shows "intersectLiveRange (lvr m1) (lvr m2) = Inr True \<and>
         intersectAllocs m1 m2 = intersectMemRegion (reg m1) (reg m2)"
proof -
  have "intersectArea (begin' (lvr m1)) (end' (lvr m1)) (end' (lvr m1)) (end' (lvr m2)) = Inr 0 \<or>
        intersectArea (begin' (lvr m1)) (end' (lvr m1)) (end' (lvr m1)) (end' (lvr m2)) = Inr (- 1)"
    using assms by (intro intersectArea_touch) simp_all
  then have "intersectLiveRange (lvr m1) (lvr m2) = Inr True"
    using assms(3) by (auto simp: intersectLiveRange_def)
  then show ?thesis by (simp add: intersectAllocs_def)
qed

theorem touching_live_ranges_intersect_witness:
  "begin' (lvr \<lparr>lvr = \<lparr>begin' = 0, end' = 5\<rparr>, reg = \<lparr>offset = 0, size' = 128\<rparr>\<rparr>)
     \<le>s end' (lvr \<lparr>lvr = \<lparr>begin' = 0, end' = 5\<rparr>, reg = \<lparr>offset = 0, size' = 128\<rparr>\<rparr>) \<and>
   begin' (lvr \<lparr>lvr = \<lparr>begin' = 5, end' = 10\<rparr>, reg = \<lparr>offset = 0, size' = 128\<rparr>\<rparr>)
     \<le>s end' (lvr \<lparr>lvr = \<lparr>begin' = 5, end' = 10\<rparr>, reg = \<lparr>offset = 0, size' = 128\<rparr>\<rparr>) \<and>
   end' (lvr \<lparr>lvr = \<lparr>begin' = 0, end' = 5\<rparr>, reg = \<lparr>offset = 0, size' = 128\<rparr>\<rparr>)
     = begin' (lvr \<lparr>lvr = \<lparr>begin' = 5, end' = 10\<rparr>, reg = \<lparr>offset = 0, size' = 128\<rparr>\<rparr>) \<and>
   intersectLiveRange \<lparr>begin' = 0, end' = 5\<rparr> \<lparr>begin' = 5, end' = 10\<rparr> = Inr True \<and>
   intersectAllocs \<lparr>lvr = \<lparr>begin' = 0, end' = 5\<rparr>, reg = \<lparr>offset = 0, size' = 128\<rparr>\<rparr>
                   \<lparr>lvr = \<lparr>begin' = 5, end' = 10\<rparr>, reg = \<lparr>offset = 0, size' = 128\<rparr>\<rparr>
     = intersectMemRegion \<lparr>offset = 0, size' = 128\<rparr> \<lparr>offset = 0, size' = 128\<rparr>"
  using touching_live_ranges_intersect
    [of "\<lparr>lvr = \<lparr>begin' = 0, end' = 5\<rparr>, reg = \<lparr>offset = 0, size' = 128\<rparr>\<rparr>"
        "\<lparr>lvr = \<lparr>begin' = 5, end' = 10\<rparr>, reg = \<lparr>offset = 0, size' = 128\<rparr>\<rparr>"]
  by (simp add: word_sle_eq)

text \<open>
  Claim C1 as stated fails on the code: the live ranges \<open>[0,5]\<close> and \<open>[5,10]\<close> share
  the single point 5 and \<^verbatim>\<open>intersectLiveRange\<close> reports an intersection; with two
  overlapping regions for which \<^verbatim>\<open>intersectMemRegion\<close> answers true the pair is a
  conflict and \<^verbatim>\<open>validateAllocations\<close> rejects the plan.
\<close>

theorem touching_live_ranges_counterexample:
  "intersectLiveRange \<lparr>begin' = 0, end' = 5\<rparr> \<lparr>begin' = 5, end' = 10\<rparr> = Inr True \<and>
   validateAllocations
     [\<lparr>lvr = \<lparr>begin' = 0, end' = 5\<rparr>, reg = \<lparr>offset = 0, size' = 0x4000000000000000\<rparr>\<rparr>,
      \<lparr>lvr = \<lparr>begin' = 5, end' = 10\<rparr>, reg = \<lparr>offset = 0, size' = 0x4000000000000000\<rparr>\<rparr>]
     = Inr (False,
        [(\<lparr>lvr = \<lparr>begin' = 0, end' = 5\<rparr>, reg = \<lparr>offset = 0, size' = 0x4000000000000000\<rparr>\<rparr>,
          \<lparr>lvr = \<lparr>begin' = 5, end' = 10\<rparr>, reg = \<lparr>offset = 0, size' = 0x4000000000000000\<rparr>\<rparr>)])"
  by (simp add: validateAllocations_def geometry_defs)

section \<open>Properties of the validator\<close>

lemma validate_inner_None:
  "validate_inner a xs = Inr None \<longleftrightarrow>
     (\<forall>b\<in>set xs. a \<noteq> b \<longrightarrow> intersectAllocs a b = Inr False)"
  by (induction xs) (auto split: sum.splits bool.splits)

lemma validate_inner_Some:
  "validate_inner a xs = Inr (Some p) \<Longrightarrow>
     \<exists>b\<in>set xs. a \<noteq> b \<and> intersectAllocs a b = Inr True \<and> p = (a, b)"
  by (induction xs) (auto split: sum.splits bool.splits if_splits)

lemma validate_inner_Inl:
  "validate_inner a xs = Inl e \<Longrightarrow> \<exists>b\<in>set xs. a \<noteq> b \<and> intersectAllocs a b = Inl e"
  by (induction xs) (auto split: sum.splits bool.splits if_splits)

lemma validate_outer_None:
  "validate_outer xs ys = Inr None \<longleftrightarrow>
     (\<forall>a\<in>set xs. \<forall>b\<in>set ys. a \<noteq> b \<longrightarrow> intersectAllocs a b = Inr False)"
proof (induction xs)
  case Nil
  then show ?case by simp
next
  case (Cons x xs)
  show ?case
  proof (cases "validate_inner x ys")
    case (Inl e)
    with validate_inner_Inl [OF Inl] show ?thesis by auto
  next
    case (Inr r)
    show ?thesis
    proof (cases r)
      case None
      with Inr have vi: "validate_inner x ys = Inr None" by simp
      then have step: "validate_outer (x # xs) ys = validate_outer xs ys" by simp
      from vi have "\<forall>b\<in>set ys. x \<noteq> b \<longrightarrow> intersectAllocs x b = Inr False"
        by (simp add: validate_inner_None)
      then show ?thesis unfolding step Cons.IH by auto
    next
      case (Some p)
      with Inr validate_inner_Some [of x ys p] show ?thesis by auto
    qed
  qed
qed

lemma validate_outer_Some:
  "validate_outer xs ys = Inr (Some p) \<Longrightarrow>
     \<exists>a\<in>set xs. \<exists>b\<in>set ys. a \<noteq> b \<and> intersectAllocs a b = Inr True \<and> p = (a, b)"
  by (induction xs) (auto split: sum.splits option.splits dest: validate_inner_Some)

lemma validate_outer_Inl:
  "validate_outer xs ys = Inl e \<Longrightarrow>
     \<exists>a\<in>set xs. \<exists>b\<in>set ys. a \<noteq> b \<and> intersectAllocs a b = Inl e"
  by (induction xs) (auto split: sum.splits option.splits dest: validate_inner_Inl)

lemma validate_inner_same: "validate_inner m (replicate n m) = Inr None"
  by (induction n) auto

text \<open>
  What the two loops compute, in terms of the pair test \<^verbatim>\<open>intersectAllocs\<close> of the
  code: \<^verbatim>\<open>validateAllocations\<close> returns true, with nothing written, exactly when
  \<^verbatim>\<open>intersectAllocs\<close> is false on every ordered pair of allocations of the vector that
  differ under \<^verbatim>\<open>operator==\<close>; when it returns false, it has written exactly one pair
  of differing allocations of the vector on which \<^verbatim>\<open>intersectAllocs\<close> is true; and
  when no allocation of the vector can trip an assertion of \<^verbatim>\<open>intersectArea\<close>, one of
  these two outcomes occurs. Whether the pair test itself finds the pairs that
  overlap is another matter, see below.
\<close>

lemma validateAllocations_iff:
  "(validateAllocations allocations = Inr (True, []) \<longleftrightarrow>
      (\<forall>a\<in>set allocations. \<forall>b\<in>set allocations.
          a \<noteq> b \<longrightarrow> intersectAllocs a b = Inr False)) \<and>
   (\<forall>out. validateAllocations allocations = Inr (False, out) \<longrightarrow>
      (\<exists>a\<in>set allocations. \<exists>b\<in>set allocations.
          a \<noteq> b \<and> intersectAllocs a b = Inr True \<and> out = [(a, b)])) \<and>
   ((\<forall>m\<in>set allocations. well_formed m) \<longrightarrow>
      validateAllocations allocations = Inr (True, []) \<or>
      (\<exists>p. validateAllocations allocations = Inr (False, [p])))"
proof (intro conjI allI impI)
  show "validateAllocations allocations = Inr (True, []) \<longleftrightarrow>
      (\<forall>a\<in>set allocations. \<forall>b\<in>set allocations.
          a \<noteq> b \<longrightarrow> intersectAllocs a b = Inr False)"
    unfolding validate_outer_None [symmetric] validateAllocations_def
    by (simp split: sum.splits option.splits)
next
  fix out
  assume "validateAllocations allocations = Inr (False, out)"
  then obtain p where "validate_outer allocations allocations = Inr (Some p)" "out = [p]"
    by (auto simp: validateAllocations_def split: sum.splits option.splits)
  with validate_outer_Some [of allocations allocations p]
  show "\<exists>a\<in>set allocations. \<exists>b\<in>set allocations.
          a \<noteq> b \<and> intersectAllocs a b = Inr True \<and> out = [(a, b)]"
    by auto
next
  assume wf: "\<forall>m\<in>set allocations. well_formed m"
  have "validate_outer allocations allocations \<noteq> Inl e" for e
  proof
    assume "validate_outer allocations allocations = Inl e"
    from validate_outer_Inl [OF this] wf intersectAllocs_total show False
      by fastforce
  qed
  then show "validateAllocations allocations = Inr (True, []) \<or>
      (\<exists>p. validateAllocations allocations = Inr (False, [p]))"
    by (cases "validate_outer allocations allocations")
       (auto simp: validateAllocations_def split: option.splits)
qed

text \<open>
  Claim C2, on the code. Two allocations are live over the same range \<open>[0,10]\<close>, one
  on the bytes from 0 to 10 and one on the bytes from 5 to 15: they differ, their
  live ranges intersect in time and their regions share the bytes from 5 to 10.
  \<^verbatim>\<open>intersectLiveRange\<close> is true on the pair, but \<^verbatim>\<open>intersectMemRegion\<close> is false,
  because \<^verbatim>\<open>intersectArea\<close> answers \<open>0\<close> for the regions; so
  \<^verbatim>\<open>validateAllocations\<close> writes nothing and returns true.
\<close>

theorem validateAllocations_accepts_overlap:
  "validateAllocations
     [\<lparr>lvr = \<lparr>begin' = 0, end' = 10\<rparr>, reg = \<lparr>offset = 0, size' = 10\<rparr>\<rparr>,
      \<lparr>lvr = \<lparr>begin' = 0, end' = 10\<rparr>, reg = \<lparr>offset = 5, size' = 10\<rparr>\<rparr>] = Inr (True, []) \<and>
   intersectLiveRange \<lparr>begin' = 0, end' = 10\<rparr> \<lparr>begin' = 0, end' = 10\<rparr> = Inr True \<and>
   intersectArea 0 10 5 15 = Inr 0 \<and>
   intersectMemRegion \<lparr>offset = 0, size' = 10\<rparr> \<lparr>offset = 5, size' = 10\<rparr> = Inr False"
  by (simp add: validateAllocations_def geometry_defs)

text \<open>
  Claim C10. The loops skip a pair whenever \<^verbatim>\<open>alloc1 == alloc2\<close>, which compares the
  live range and the region and not the position in the vector. A vector made of
  copies of one allocation, in particular of two duplicates, is therefore reported
  valid whatever the allocation is: \<^verbatim>\<open>intersectAllocs\<close> is never called on it.
\<close>

theorem validateAllocations_duplicates:
  "validateAllocations [m, m] = Inr (True, []) \<and>
   validateAllocations (replicate n m) = Inr (True, [])"
proof -
  have "validate_outer (replicate k m) (replicate n m) = Inr None" for k n
    by (induction k) (simp_all add: validate_inner_same)
  then have "validateAllocations (replicate n m) = Inr (True, [])" for n
    by (simp add: validateAllocations_def)
  from this [of 2] this [of n] show ?thesis
    by (simp add: numeral_2_eq_2)
qed

section \<open>Properties of the NAIVE strategy\<close>

lemma set_map_insert: "set (map_insert lt kv xs) \<subseteq> insert kv (set xs)"
  by (induction xs) auto

lemma mset_map_insert:
  "\<forall>x\<in>set xs. lt (fst kv) (fst x) \<or> lt (fst x) (fst kv) \<Longrightarrow>
   mset (map_insert lt kv xs) = add_mset kv (mset xs)"
  by (induction xs) auto

lemma sorted_map_insert:
  assumes "transp lt" "sorted_wrt lt (map fst xs)"
  shows "sorted_wrt lt (map fst (map_insert lt kv xs))"
  using assms(2)
proof (induction xs)
  case Nil
  then show ?case by simp
next
  case (Cons x xs)
  have below: "lt (fst x) (fst y)" if "lt (fst x) (fst kv)" "y \<in> set (map_insert lt kv xs)" for y
    using that Cons.prems set_map_insert [of lt kv xs] by auto
  have above: "lt (fst kv) (fst y)" if "lt (fst kv) (fst x)" "y \<in> set xs" for y
    using that Cons.prems assms(1) by (auto dest: transpD)
  from Cons below above show ?case by auto
qed

lemma mset_foldl_map_insert:
  assumes "totalp lt"
  shows "distinct (map fst m @ map fst items) \<Longrightarrow>
         mset (foldl (\<lambda>m kv. map_insert lt kv m) m items) = mset m + mset items"
proof (induction items arbitrary: m)
  case Nil
  then show ?case by simp
next
  case (Cons kv items)
  have "\<forall>x\<in>set m. lt (fst kv) (fst x) \<or> lt (fst x) (fst kv)"
    using Cons.prems assms by (auto dest!: totalpD)
  then have step: "mset (map_insert lt kv m) = add_mset kv (mset m)"
    by (rule mset_map_insert)
  have "mset (map fst (map_insert lt kv m)) = add_mset (fst kv) (mset (map fst m))"
    using arg_cong [OF step, of "image_mset fst"] by simp
  then have "mset (map fst (map_insert lt kv m) @ map fst items)
             = mset (map fst m @ map fst (kv # items))"
    by simp
  then have "distinct (map fst (map_insert lt kv m) @ map fst items)"
    using Cons.prems mset_eq_imp_distinct_iff by blast
  from Cons.IH [OF this] step show ?case by simp
qed

lemma sorted_foldl_map_insert:
  assumes "transp lt"
  shows "sorted_wrt lt (map fst m) \<Longrightarrow>
         sorted_wrt lt (map fst (foldl (\<lambda>m kv. map_insert lt kv m) m items))"
  by (induction items arbitrary: m) (simp_all add: sorted_map_insert [OF assms])

lemma naive_loop_pairs:
  "map (\<lambda>m. (lvr m, size' (reg m))) (naive_loop align off items)
     = map (\<lambda>kv. (fst kv, align (snd kv))) items"
  by (induction items arbitrary: off) (simp_all add: Let_def)

lemma naive_loop_length: "length (naive_loop align off items) = length items"
  by (induction items arbitrary: off) (simp_all add: Let_def)

lemma naive_loop_offsets:
  "i < length items \<Longrightarrow>
   offset (reg (naive_loop align off items ! i))
     = off + sum_list (map (\<lambda>m. size' (reg m)) (take i (naive_loop align off items)))"
proof (induction items arbitrary: off i)
  case Nil
  then show ?case by simp
next
  case (Cons item items)
  show ?case
  proof (cases i)
    case 0
    then show ?thesis by (simp add: Let_def)
  next
    case (Suc j)
    with Cons.prems have "j < length items" by simp
    from Cons.IH [OF this, of "off + align (snd item)"] Suc show ?thesis
      by (simp add: Let_def add.assoc)
  qed
qed

lemma naive_loop_total:
  assumes "\<forall>kv\<in>set items. 0 \<le> sint (align (snd kv))"
    and "sint off + sum_list (map (\<lambda>kv. sint (align (snd kv))) items) < 2 ^ 63"
    and "0 \<le> sint off" and "sint t \<le> sint off"
  shows "sint (foldl (\<lambda>total_size alloc. smax total_size (offset (reg alloc) + size' (reg alloc)))
            t (naive_loop align off items))
         = (if items = [] then sint t
            else sint off + sum_list (map (\<lambda>kv. sint (align (snd kv))) items))"
  using assms
proof (induction items arbitrary: off t)
  case Nil
  then show ?case by simp
next
  case (Cons item items)
  let ?a = "align (snd item)"
  have nonneg: "0 \<le> sint ?a" using Cons.prems(1) by simp
  have rest_nonneg: "0 \<le> sum_list (map (\<lambda>kv. sint (align (snd kv))) items)"
    using Cons.prems(1) by (intro sum_list_nonneg) auto
  have "sint off + sint ?a < 2 ^ 63"
    using Cons.prems(2) rest_nonneg by simp
  with nonneg Cons.prems(3) have add: "sint (off + ?a) = sint off + sint ?a"
    by (intro sint_add_in_range_signed) auto
  then have "t \<le>s off + ?a" using Cons.prems(4) nonneg by (simp add: word_sle_eq)
  then have smax: "smax t (off + ?a) = off + ?a" by (rule smax_sle)
  have IH: "sint (foldl (\<lambda>total_size alloc. smax total_size (offset (reg alloc) + size' (reg alloc)))
            (off + ?a) (naive_loop align (off + ?a) items))
         = (if items = [] then sint (off + ?a)
            else sint (off + ?a) + sum_list (map (\<lambda>kv. sint (align (snd kv))) items))"
    using Cons.prems nonneg add by (intro Cons.IH) auto
  show ?case
    by (simp add: Let_def smax IH add)
qed

lemma transp_live_range_start_cmp: "transp live_range_start_cmp"
  by (rule transpI) (auto simp: live_range_start_cmp_def)

lemma totalp_live_range_start_cmp: "totalp live_range_start_cmp"
proof (rule totalpI)
  fix x y :: LiveRange
  assume "x \<noteq> y"
  then show "live_range_start_cmp x y \<or> live_range_start_cmp y x"
    by (cases x; cases y) (auto simp: live_range_start_cmp_def)
qed

text \<open>
  Claim C3. Let the comparator be a transitive order that separates any two different
  live ranges and never puts a later \<^verbatim>\<open>begin\<close> first, let the keys of the input map
  differ, let every aligned size be non-negative and let the aligned sizes add up to
  at most the largest \<^verbatim>\<open>int64_t\<close>. Then the allocations of \<^verbatim>\<open>naive\<close> are in the order
  of the comparator, hence of \<^verbatim>\<open>begin\<close>; they are the input entries, each once, with
  its size aligned; the offset of the \<open>i\<close>-th allocation is the sum of the sizes of
  the allocations before it (so the first offset is 0); and
  \<^verbatim>\<open>getTotalAllocationSize\<close> of the result is the sum of all aligned sizes.
\<close>

theorem naive_prefix_sums:
  assumes "transp lt" and "totalp lt"
    and "\<forall>x y. lt x y \<longrightarrow> begin' x \<le> begin' y"
    and "distinct (map fst managed)"
    and "\<forall>kv\<in>set managed. 0 \<le>s align (snd kv)"
    and "sum_list (map (\<lambda>kv. sint (align (snd kv))) managed) \<le> sint int64_max"
  shows "sorted_wrt lt (map lvr (naive lt align managed)) \<and>
         sorted_wrt (\<lambda>a b. begin' (lvr a) \<le> begin' (lvr b)) (naive lt align managed) \<and>
         mset (map (\<lambda>m. (lvr m, size' (reg m))) (naive lt align managed))
           = mset (map (\<lambda>kv. (fst kv, align (snd kv))) managed) \<and>
         (\<forall>i<length (naive lt align managed).
            offset (reg (naive lt align managed ! i))
              = sum_list (map (\<lambda>m. size' (reg m))
                  (take i (naive lt align managed)))) \<and>
         sint (getTotalAllocationSize (naive lt align managed))
           = sum_list (map (\<lambda>kv. sint (align (snd kv))) managed)"
proof -
  let ?sorted = "map_of_range lt managed"
  let ?allocs = "naive lt align managed"
  have perm: "mset ?sorted = mset managed"
    using mset_foldl_map_insert [OF assms(2), of "[]" managed] assms(4)
    by (simp add: map_of_range_def)
  have pairs: "map (\<lambda>m. (lvr m, size' (reg m))) ?allocs
                 = map (\<lambda>kv. (fst kv, align (snd kv))) ?sorted"
    by (simp add: naive_def naive_loop_pairs)
  have "map lvr ?allocs = map fst (map (\<lambda>m. (lvr m, size' (reg m))) ?allocs)"
    by simp
  also have "\<dots> = map fst ?sorted"
    unfolding pairs by simp
  finally have keys: "map lvr ?allocs = map fst ?sorted" .
  have "sorted_wrt lt (map fst ?sorted)"
    unfolding map_of_range_def by (rule sorted_foldl_map_insert [OF assms(1)]) simp
  with keys have c1: "sorted_wrt lt (map lvr ?allocs)" by simp
  then have "sorted_wrt (\<lambda>x y. begin' x \<le> begin' y) (map lvr ?allocs)"
    using assms(3) by (auto intro: sorted_wrt_mono_rel)
  then have c1': "sorted_wrt (\<lambda>a b. begin' (lvr a) \<le> begin' (lvr b)) ?allocs"
    by (simp add: sorted_wrt_map)
  have c2: "mset (map (\<lambda>m. (lvr m, size' (reg m))) ?allocs)
              = mset (map (\<lambda>kv. (fst kv, align (snd kv))) managed)"
    unfolding pairs using arg_cong [OF perm, of "image_mset (\<lambda>kv. (fst kv, align (snd kv)))"]
    by simp
  have c3: "\<forall>i<length ?allocs.
            offset (reg (?allocs ! i)) = sum_list (map (\<lambda>m. size' (reg m)) (take i ?allocs))"
    using naive_loop_offsets [of _ ?sorted align 0]
    by (simp add: naive_def naive_loop_length)
  have sums: "sum_list (map (\<lambda>kv. sint (align (snd kv))) ?sorted)
                = sum_list (map (\<lambda>kv. sint (align (snd kv))) managed)"
    using arg_cong [OF perm, of "\<lambda>M. sum_mset (image_mset (\<lambda>kv. sint (align (snd kv))) M)"]
    by (simp add: sum_mset_sum_list flip: mset_map)
  have nonneg: "\<forall>kv\<in>set ?sorted. 0 \<le> sint (align (snd kv))"
    using assms(5) mset_eq_setD [OF perm] by (simp add: word_sle_eq)
  have bound: "sint (0 :: int64) + sum_list (map (\<lambda>kv. sint (align (snd kv))) ?sorted) < 2 ^ 63"
    using assms(6) unfolding sums by (simp add: int64_max_def)
  have "sint (getTotalAllocationSize ?allocs)
          = (if ?sorted = [] then sint (0 :: int64)
             else sint (0 :: int64) + sum_list (map (\<lambda>kv. sint (align (snd kv))) ?sorted))"
    unfolding getTotalAllocationSize_def naive_def
    by (rule naive_loop_total [OF nonneg bound]) simp_all
  then have c4: "sint (getTotalAllocationSize ?allocs)
          = sum_list (map (\<lambda>kv. sint (align (snd kv))) managed)"
    unfolding sums [symmetric] by (cases "?sorted = []") simp_all
  from c1 c1' c2 c3 c4 show ?thesis by blast
qed

text \<open>
  The theorem at three ranges of sizes 10, 100 and 64, given out of order, with the
  comparator and the 64-byte alignment of the spec: the plan is in \<^verbatim>\<open>begin\<close> order at
  the offsets 0, 128 and 192, and the total is \<open>128 + 64 + 64\<close>.
\<close>

theorem naive_prefix_sums_witness:
  "transp live_range_start_cmp \<and> totalp live_range_start_cmp \<and>
   distinct (map fst
     [(\<lparr>begin' = 2, end' = 4\<rparr>, 10 :: int64), (\<lparr>begin' = 0, end' = 2\<rparr>, 100),
      (\<lparr>begin' = 1, end' = 3\<rparr>, 64)]) \<and>
   0 \<le>s computeAlignedTensorSize 10 \<and> 0 \<le>s computeAlignedTensorSize 100 \<and>
   0 \<le>s computeAlignedTensorSize 64 \<and>
   naive live_range_start_cmp computeAlignedTensorSize
     [(\<lparr>begin' = 2, end' = 4\<rparr>, 10), (\<lparr>begin' = 0, end' = 2\<rparr>, 100), (\<lparr>begin' = 1, end' = 3\<rparr>, 64)]
     = [\<lparr>lvr = \<lparr>begin' = 0, end' = 2\<rparr>, reg = \<lparr>offset = 0, size' = 128\<rparr>\<rparr>,
        \<lparr>lvr = \<lparr>begin' = 1, end' = 3\<rparr>, reg = \<lparr>offset = 128, size' = 64\<rparr>\<rparr>,
        \<lparr>lvr = \<lparr>begin' = 2, end' = 4\<rparr>, reg = \<lparr>offset = 192, size' = 64\<rparr>\<rparr>] \<and>
   sint (getTotalAllocationSize (naive live_range_start_cmp computeAlignedTensorSize
     [(\<lparr>begin' = 2, end' = 4\<rparr>, 10), (\<lparr>begin' = 0, end' = 2\<rparr>, 100), (\<lparr>begin' = 1, end' = 3\<rparr>, 64)]))
     = 256"
proof -
  let ?managed = "[(\<lparr>begin' = 2, end' = 4\<rparr>, 10 :: int64), (\<lparr>begin' = 0, end' = 2\<rparr>, 100),
      (\<lparr>begin' = 1, end' = 3\<rparr>, 64)]"
  have order: "\<forall>x y. live_range_start_cmp x y \<longrightarrow> begin' x \<le> begin' y"
    by (auto simp: live_range_start_cmp_def)
  have keys: "distinct (map fst ?managed)" by simp
  have sizes: "0 \<le>s computeAlignedTensorSize 10" "0 \<le>s computeAlignedTensorSize 100"
    "0 \<le>s computeAlignedTensorSize 64"
    by (simp_all add: computeAlignedTensorSize_def word_sle_eq)
  then have nonneg: "\<forall>kv\<in>set ?managed. 0 \<le>s computeAlignedTensorSize (snd kv)" by simp
  have bound: "sum_list (map (\<lambda>kv. sint (computeAlignedTensorSize (snd kv))) ?managed)
                 \<le> sint int64_max"
    by (simp add: computeAlignedTensorSize_def int64_max_def)
  have plan: "naive live_range_start_cmp computeAlignedTensorSize ?managed
     = [\<lparr>lvr = \<lparr>begin' = 0, end' = 2\<rparr>, reg = \<lparr>offset = 0, size' = 128\<rparr>\<rparr>,
        \<lparr>lvr = \<lparr>begin' = 1, end' = 3\<rparr>, reg = \<lparr>offset = 128, size' = 64\<rparr>\<rparr>,
        \<lparr>lvr = \<lparr>begin' = 2, end' = 4\<rparr>, reg = \<lparr>offset = 192, size' = 64\<rparr>\<rparr>]"
    by (simp add: naive_def map_of_range_def live_range_start_cmp_def
        computeAlignedTensorSize_def)
  from naive_prefix_sums [OF transp_live_range_start_cmp totalp_live_range_start_cmp
      order keys nonneg bound]
  have "sint (getTotalAllocationSize (naive live_range_start_cmp computeAlignedTensorSize ?managed))
          = sum_list (map (\<lambda>kv. sint (computeAlignedTensorSize (snd kv))) ?managed)"
    by blast
  then have "sint (getTotalAllocationSize
      (naive live_range_start_cmp computeAlignedTensorSize ?managed)) = 256"
    by (simp add: computeAlignedTensorSize_def)
  with transp_live_range_start_cmp totalp_live_range_start_cmp keys sizes plan
  show ?thesis by blast
qed

section \<open>Properties of the trace replay\<close>




lemma open_entries_mono: "open_entries S a \<Longrightarrow> S \<subseteq> T \<Longrightarrow> open_entries T a"
  by (auto simp: open_entries_def)












section \<open>Properties of the planners\<close>

lemma map_find_strict_total:
  assumes "irreflp lt" "totalp lt"
  shows "map_option snd (map_find lt k m) = map_of m k"
proof -
  have eq: "(\<not> lt a k \<and> \<not> lt k a) \<longleftrightarrow> a = k" for a
    using assms by (auto dest: irreflpD totalpD)
  show ?thesis
    unfolding map_find_def eq by (induction m) auto
qed

lemma map_of_map_insert:
  assumes "irreflp lt" "transp lt" "totalp lt" "sorted_wrt lt (map fst m)"
  shows "map_of (map_insert lt (k, v) m) =
         (case map_of m k of None \<Rightarrow> (map_of m)(k \<mapsto> v) | Some _ \<Rightarrow> map_of m)"
  using assms(4)
proof (induction m)
  case Nil
  then show ?case by simp
next
  case (Cons x xs)
  consider (before) "lt k (fst x)" | (after) "\<not> lt k (fst x)" "lt (fst x) k"
    | (same) "\<not> lt k (fst x)" "\<not> lt (fst x) k"
    by blast
  then show ?case
  proof cases
    case before
    have "k \<noteq> fst x" using before assms(1) by (auto dest: irreflpD)
    moreover have "k \<notin> fst ` set xs"
    proof
      assume "k \<in> fst ` set xs"
      with Cons.prems have "lt (fst x) k" by auto
      with before assms(2) have "lt k k" by (auto dest: transpD)
      with assms(1) show False by (auto dest: irreflpD)
    qed
    then have "map_of xs k = None" by (simp add: map_of_eq_None_iff)
    ultimately show ?thesis using before by (cases x) (auto simp: fun_upd_twist)
  next
    case after
    then have "k \<noteq> fst x" using assms(1) by (auto dest: irreflpD)
    with after Cons show ?thesis
      by (cases x) (auto split: option.splits simp: fun_upd_twist)
  next
    case same
    then have "k = fst x" using assms(3) by (auto dest: totalpD)
    with same show ?thesis by (cases x) auto
  qed
qed

lemma step_sorted:
  assumes "transp lt" "sorted_wrt lt (map fst (fst acc))"
  shows "sorted_wrt lt (map fst (fst (managed_range_values_step lt acc item)))"
  using assms by (simp add: managed_range_values_step_def Let_def sorted_map_insert)

lemma step_lookup:
  assumes "irreflp lt" "transp lt" "totalp lt" "sorted_wrt lt (map fst (fst acc))"
  shows "map_of (fst (managed_range_values_step lt acc item)) =
         (case map_of (fst acc) (snd item) of
            None \<Rightarrow> (map_of (fst acc))(snd item \<mapsto> fst item)
          | Some _ \<Rightarrow> map_of (fst acc))"
  using map_of_map_insert [OF assms, of "snd item" "fst item"]
  by (simp add: managed_range_values_step_def Let_def)

lemma step_warns:
  assumes "irreflp lt" "totalp lt" "map_of (fst acc) (snd item) = Some v"
  shows "(fst item, v) \<in> set (snd (managed_range_values_step lt acc item))"
proof -
  from map_find_strict_total [OF assms(1,2), of "snd item" "fst acc"] assms(3)
  obtain found where "map_find lt (snd item) (fst acc) = Some found" "snd found = v"
    by (cases "map_find lt (snd item) (fst acc)") auto
  then show ?thesis by (simp add: managed_range_values_step_def Let_def)
qed

lemma step_warns_mono:
  "set (snd acc) \<subseteq> set (snd (managed_range_values_step lt acc item))"
  by (auto simp: managed_range_values_step_def Let_def split: option.splits)

lemma loop_sorted:
  assumes "transp lt"
  shows "sorted_wrt lt (map fst (fst acc)) \<Longrightarrow>
         sorted_wrt lt (map fst (fst (foldl (managed_range_values_step lt) acc items)))"
  by (induction items arbitrary: acc) (simp_all add: step_sorted [OF assms])

lemma loop_keeps:
  assumes "irreflp lt" "transp lt" "totalp lt"
  shows "sorted_wrt lt (map fst (fst acc)) \<Longrightarrow> map_of (fst acc) r = Some v \<Longrightarrow>
         map_of (fst (foldl (managed_range_values_step lt) acc items)) r = Some v"
proof (induction items arbitrary: acc)
  case Nil
  then show ?case by simp
next
  case (Cons item items)
  have "map_of (fst (managed_range_values_step lt acc item)) r = Some v"
    using Cons.prems by (auto simp: step_lookup [OF assms Cons.prems(1)] split: option.splits)
  with Cons.IH [OF step_sorted [OF assms(2) Cons.prems(1)]] show ?case by simp
qed

lemma loop_absent:
  assumes "irreflp lt" "transp lt" "totalp lt"
  shows "sorted_wrt lt (map fst (fst acc)) \<Longrightarrow> map_of (fst acc) r = None \<Longrightarrow>
         r \<notin> snd ` set items \<Longrightarrow>
         map_of (fst (foldl (managed_range_values_step lt) acc items)) r = None"
proof (induction items arbitrary: acc)
  case Nil
  then show ?case by simp
next
  case (Cons item items)
  have "map_of (fst (managed_range_values_step lt acc item)) r = None"
    using Cons.prems by (auto simp: step_lookup [OF assms Cons.prems(1)] split: option.splits)
  with Cons.IH [OF step_sorted [OF assms(2) Cons.prems(1)]] Cons.prems(3) show ?case by simp
qed

lemma loop_warns_mono:
  "set (snd acc) \<subseteq> set (snd (foldl (managed_range_values_step lt) acc items))"
proof (induction items arbitrary: acc)
  case Nil
  then show ?case by simp
next
  case (Cons item items)
  from step_warns_mono [of acc lt item] Cons.IH [of "managed_range_values_step lt acc item"]
  show ?case by auto
qed

lemma irreflp_live_range_start_cmp: "irreflp live_range_start_cmp"
  by (rule irreflpI) (simp add: live_range_start_cmp_def)

lemmas example_defs =
  example_externals_def example_graph_def example_trace_def
  NAIVE_def LINEAR_SCAN_def GREEDY_BY_SIZE_def GREEDY_BY_SIZE_WITH_FIRST_GAP_def
  GREEDY_BY_LONGEST_AND_SIZE_def GREEDY_BY_BREADTH_def

lemmas replay_defs =
  getManagedLiveRangesFromMemEvents_def replay_start_def replay_event_def
  umap_insert_def umap_erase_def node_outputs_def Let_def

text \<open>
  Claim C7, as the code has it. Let the comparator be a strict total order, and let
  two values \<open>v1\<close> and \<open>v2\<close> carry the same live range \<open>r\<close>, \<open>v1\<close> being the first
  value with that range in the iteration over \<^verbatim>\<open>managed_value_ranges\<close> and \<open>v2\<close> a
  later one. The loop, which cannot fail, warns about \<open>v2\<close> and \<open>v1\<close>, and
  \<^verbatim>\<open>managed_range_values\<close> maps \<open>r\<close> to the earlier value \<open>v1\<close> when the loop ends:
  \<^verbatim>\<open>insert\<close> does not replace an entry.
\<close>

theorem earlier_value_keeps_range:
  assumes "irreflp lt" "transp lt" "totalp lt"
    and "managed_value_ranges = pre @ (v1, r) # mid @ (v2, r) # post"
    and "r \<notin> snd ` set pre"
  shows "map_of (fst (managed_range_values_loop lt managed_value_ranges)) r = Some v1 \<and>
         (v2, v1) \<in> set (snd (managed_range_values_loop lt managed_value_ranges))"
proof -
  let ?step = "managed_range_values_step lt"
  define acc0 where "acc0 = foldl ?step ([], []) pre"
  define acc1 where "acc1 = ?step acc0 (v1, r)"
  define acc2 where "acc2 = foldl ?step acc1 mid"
  define acc3 where "acc3 = ?step acc2 (v2, r)"
  have final: "managed_range_values_loop lt managed_value_ranges = foldl ?step acc3 post"
    by (simp add: managed_range_values_loop_def assms(4) acc0_def acc1_def acc2_def acc3_def)
  have s0: "sorted_wrt lt (map fst (fst acc0))"
    unfolding acc0_def by (rule loop_sorted [OF assms(2)]) simp
  then have s1: "sorted_wrt lt (map fst (fst acc1))"
    unfolding acc1_def by (rule step_sorted [OF assms(2)])
  then have s2: "sorted_wrt lt (map fst (fst acc2))"
    unfolding acc2_def by (rule loop_sorted [OF assms(2)])
  then have s3: "sorted_wrt lt (map fst (fst acc3))"
    unfolding acc3_def by (rule step_sorted [OF assms(2)])
  have "map_of (fst acc0) r = None"
    unfolding acc0_def using assms(5) by (intro loop_absent [OF assms(1-3)]) simp_all
  then have "map_of (fst acc1) r = Some v1"
    unfolding acc1_def by (simp add: step_lookup [OF assms(1-3) s0])
  then have l2: "map_of (fst acc2) r = Some v1"
    unfolding acc2_def by (rule loop_keeps [OF assms(1-3) s1])
  then have l3: "map_of (fst acc3) r = Some v1"
    unfolding acc3_def by (simp add: step_lookup [OF assms(1-3) s2])
  have "(v2, v1) \<in> set (snd acc3)"
    unfolding acc3_def using step_warns [OF assms(1,3), of acc2 "(v2, r)" v1] l2 by simp
  with loop_warns_mono [of acc3 lt post] loop_keeps [OF assms(1-3) s3 l3, of post]
  show ?thesis unfolding final by auto
qed

theorem earlier_value_keeps_range_witness:
  "irreflp live_range_start_cmp \<and> transp live_range_start_cmp \<and> totalp live_range_start_cmp \<and>
   \<lparr>begin' = 0, end' = 2\<rparr> \<notin> snd ` set ([] :: (Value \<times> LiveRange) list) \<and>
   map_of (fst (managed_range_values_loop live_range_start_cmp
     [(\<lparr>unique = 1, producer = 0, ttype = None\<rparr>, \<lparr>begin' = 0, end' = 2\<rparr>),
      (\<lparr>unique = 3, producer = 2, ttype = None\<rparr>, \<lparr>begin' = 0, end' = 2\<rparr>)]))
     \<lparr>begin' = 0, end' = 2\<rparr> = Some \<lparr>unique = 1, producer = 0, ttype = None\<rparr> \<and>
   (\<lparr>unique = 3, producer = 2, ttype = None\<rparr>, \<lparr>unique = 1, producer = 0, ttype = None\<rparr>)
     \<in> set (snd (managed_range_values_loop live_range_start_cmp
     [(\<lparr>unique = 1, producer = 0, ttype = None\<rparr>, \<lparr>begin' = 0, end' = 2\<rparr>),
      (\<lparr>unique = 3, producer = 2, ttype = None\<rparr>, \<lparr>begin' = 0, end' = 2\<rparr>)]))"
  using earlier_value_keeps_range
    [OF irreflp_live_range_start_cmp transp_live_range_start_cmp totalp_live_range_start_cmp,
     of "[(\<lparr>unique = 1, producer = 0, ttype = None\<rparr>, \<lparr>begin' = 0, end' = 2\<rparr>),
          (\<lparr>unique = 3, producer = 2, ttype = None\<rparr>, \<lparr>begin' = 0, end' = 2\<rparr>)]"
        "[]" "\<lparr>unique = 1, producer = 0, ttype = None\<rparr>" "\<lparr>begin' = 0, end' = 2\<rparr>"
        "[]" "\<lparr>unique = 3, producer = 2, ttype = None\<rparr>" "[]"]
    irreflp_live_range_start_cmp transp_live_range_start_cmp totalp_live_range_start_cmp
  by simp

text \<open>
  Claim C7 as stated fails on the code: with two values on the range \<open>[0,2]\<close> the
  map ends with the first value under that range, not the second; the warning names
  both.
\<close>

theorem later_value_wins_counterexample:
  "managed_range_values_loop live_range_start_cmp
     [(\<lparr>unique = 1, producer = 0, ttype = None\<rparr>, \<lparr>begin' = 0, end' = 2\<rparr>),
      (\<lparr>unique = 3, producer = 2, ttype = None\<rparr>, \<lparr>begin' = 0, end' = 2\<rparr>)]
   = ([(\<lparr>begin' = 0, end' = 2\<rparr>, \<lparr>unique = 1, producer = 0, ttype = None\<rparr>)],
      [(\<lparr>unique = 3, producer = 2, ttype = None\<rparr>, \<lparr>unique = 1, producer = 0, ttype = None\<rparr>)])"
  by (simp add: managed_range_values_loop_def managed_range_values_step_def map_find_def
      live_range_start_cmp_def Let_def)

text \<open>
  Claim C8, as the code has it. The \<^verbatim>\<open>switch\<close> of \<^verbatim>\<open>planMemoryWithTracing\<close> calls a
  heuristic for \<open>NAIVE\<close>, \<open>LINEAR_SCAN\<close> and \<open>GREEDY_BY_SIZE\<close>. For every other
  strategy, the three remaining enumerators among them, it takes \<^verbatim>\<open>default: return;\<close>:
  once the trace has passed the assertions of the replay, the function returns
  normally and the graph is as it was. Nothing tells the caller that the strategy was
  not handled.
\<close>

theorem trace_unsupported_strategy_returns:
  "trace_strategy_switch ext NAIVE managed
     = Some (naive (live_range_cmp ext) (alignedTensorSize ext) managed) \<and>
   trace_strategy_switch ext LINEAR_SCAN managed = Some (linearScanHeuristic ext managed) \<and>
   trace_strategy_switch ext GREEDY_BY_SIZE managed = Some (greedyBySize ext managed) \<and>
   (strat \<notin> {NAIVE, LINEAR_SCAN, GREEDY_BY_SIZE} \<longrightarrow>
      trace_strategy_switch ext strat managed = None \<and>
      planMemoryWithTracing ext graph strat mem_events device_type =
        (if mem_events = [] then Inl InternalAssert
         else case getManagedLiveRangesFromMemEvents mem_events graph of
                Inl e \<Rightarrow> Inl e
              | Inr _ \<Rightarrow> Inr graph))"
  by (auto simp: trace_strategy_switch_def planMemoryWithTracing_def NAIVE_def LINEAR_SCAN_def
      GREEDY_BY_SIZE_def split: sum.splits)

theorem trace_unsupported_strategy_returns_witness:
  "GREEDY_BY_BREADTH \<notin> {NAIVE, LINEAR_SCAN, GREEDY_BY_SIZE} \<and>
   planMemoryWithTracing example_externals example_graph GREEDY_BY_BREADTH example_trace None
     = Inr example_graph"
proof -
  have strat: "GREEDY_BY_BREADTH \<notin> {NAIVE, LINEAR_SCAN, GREEDY_BY_SIZE}"
    by (simp add: example_defs)
  have trace: "example_trace \<noteq> []"
    by (simp add: example_trace_def)
  have replay: "getManagedLiveRangesFromMemEvents example_trace example_graph
     = Inr ([(\<lparr>begin' = 1, end' = 3\<rparr>, 32)],
            [(\<lparr>begin' = 1, end' = 3\<rparr>,
              \<lparr>pc = 0, node_schema = [], node_header = [], node = 0\<rparr>)])"
    by (simp add: example_trace_def example_graph_def replay_defs)
  from trace_unsupported_strategy_returns
    [of example_externals _ GREEDY_BY_BREADTH example_graph example_trace None] strat
  have "planMemoryWithTracing example_externals example_graph GREEDY_BY_BREADTH example_trace None
     = (if example_trace = [] then Inl InternalAssert
        else case getManagedLiveRangesFromMemEvents example_trace example_graph of
               Inl e \<Rightarrow> Inl e
             | Inr _ \<Rightarrow> Inr example_graph)"
    by blast
  with strat trace replay show ?thesis by simp
qed

text \<open>
  Claim C8 as stated fails on the code: on a trace that passes the replay, the call
  with each of the three strategies returns normally, with the graph it was given.
\<close>

theorem trace_unsupported_strategy_counterexample:
  "planMemoryWithTracing example_externals example_graph GREEDY_BY_SIZE_WITH_FIRST_GAP
     example_trace None = Inr example_graph \<and>
   planMemoryWithTracing example_externals example_graph GREEDY_BY_LONGEST_AND_SIZE
     example_trace None = Inr example_graph \<and>
   planMemoryWithTracing example_externals example_graph GREEDY_BY_BREADTH
     example_trace None = Inr example_graph"
  by (simp add: planMemoryWithTracing_def trace_strategy_switch_def example_defs replay_defs)

text \<open>
  Claim C9. For a strategy that is none of the six enumerators the \<^verbatim>\<open>switch\<close> of
  \<^verbatim>\<open>planMemory\<close> takes \<^verbatim>\<open>default: return;\<close> with the vector of allocations still
  empty: \<^verbatim>\<open>planMemory\<close> returns the graph it was given, so that no storage or allocation
  node has been inserted, and no warning of the planner has been issued. Each of the
  six enumerators is dispatched to its heuristic.
\<close>

theorem planMemory_unknown_strategy_noop:
  "strategy_switch ext NAIVE managed sizes_of ranges_of out_nodes
     = Some (naive (live_range_cmp ext) (alignedTensorSize ext) managed) \<and>
   strategy_switch ext LINEAR_SCAN managed sizes_of ranges_of out_nodes
     = Some (linearScanHeuristic ext managed) \<and>
   strategy_switch ext GREEDY_BY_SIZE managed sizes_of ranges_of out_nodes
     = Some (greedyBySize ext managed) \<and>
   strategy_switch ext GREEDY_BY_SIZE_WITH_FIRST_GAP managed sizes_of ranges_of out_nodes
     = Some (greedyBySizeWithFirstGap ext managed) \<and>
   strategy_switch ext GREEDY_BY_LONGEST_AND_SIZE managed sizes_of ranges_of out_nodes
     = Some (greedyBySizeAndLongestWithFirstGap ext managed) \<and>
   strategy_switch ext GREEDY_BY_BREADTH managed sizes_of ranges_of out_nodes
     = Some (greedyByOperatorBreadth ext sizes_of ranges_of out_nodes) \<and>
   (strat \<notin> {NAIVE, LINEAR_SCAN, GREEDY_BY_SIZE, GREEDY_BY_SIZE_WITH_FIRST_GAP,
              GREEDY_BY_LONGEST_AND_SIZE, GREEDY_BY_BREADTH} \<longrightarrow>
      strategy_switch ext strat managed sizes_of ranges_of out_nodes = None \<and>
      planMemory ext graph strat = Inr (graph, []))"
  by (auto simp: strategy_switch_def planMemory_def NAIVE_def LINEAR_SCAN_def GREEDY_BY_SIZE_def
      GREEDY_BY_SIZE_WITH_FIRST_GAP_def GREEDY_BY_LONGEST_AND_SIZE_def GREEDY_BY_BREADTH_def
      Let_def split: prod.splits)

theorem planMemory_unknown_strategy_noop_witness:
  "(6 :: Strategy) \<notin> {NAIVE, LINEAR_SCAN, GREEDY_BY_SIZE, GREEDY_BY_SIZE_WITH_FIRST_GAP,
              GREEDY_BY_LONGEST_AND_SIZE, GREEDY_BY_BREADTH} \<and>
   planMemory example_externals example_graph 6 = Inr (example_graph, [])"
proof -
  have strat: "(6 :: Strategy) \<notin> {NAIVE, LINEAR_SCAN, GREEDY_BY_SIZE,
      GREEDY_BY_SIZE_WITH_FIRST_GAP, GREEDY_BY_LONGEST_AND_SIZE, GREEDY_BY_BREADTH}"
    by (simp add: example_defs)
  with planMemory_unknown_strategy_noop [of example_externals _ _ _ _ 6 example_graph]
  show ?thesis by blast
qed

end
